theory Spec2Isabelle
  imports Main "HOL-Library.Word" "HOL-Library.DAList"
begin

unbundle bit_operations_syntax

section \<open>certigo, lib/certs.go: reading certificates and keys as PEM blocks\<close>

text \<open>
  The development follows \<^verbatim>\<open>src/lib/certs.go\<close> function by function. Go strings
  are \<^typ>\<open>string\<close>, byte slices are lists of 8-bit words, a Go \<^verbatim>\<open>error\<close> is the
  message it carries, and a function returning \<^verbatim>\<open>(T, error)\<close> returns a sum with the
  error on the left.
\<close>

subsection \<open>Values\<close>

type_synonym byte = "8 word"
type_synonym error = string

text \<open>The line feed that ends most of the file's error messages.\<close>

definition LF :: string where
  "LF = [CHR 0x0A]"

text \<open>
  An input, as the functions of this file see it through \<^verbatim>\<open>io.Reader\<close>: the bytes
  it has still to deliver, how it ends (\<open>None\<close> for \<^verbatim>\<open>io.EOF\<close>, \<open>Some e\<close> for a
  read error \<open>e\<close> after those bytes), and in what portions the bytes arrive: \<open>reads\<close>
  holds, for the calls of \<^verbatim>\<open>Read\<close> to come, how many bytes each of them finds ready,
  \<open>0\<close> (and every call after the last of the list) for a call that finds as many
  bytes as it has room for.
\<close>

record stream =
  content :: "byte list"
  failure :: "error option"
  reads :: "nat list"

subsection \<open>Blocks, certificates and keys\<close>

text \<open>
  A Go \<^verbatim>\<open>map[string]string\<close> is an association list with distinct keys; the order of
  the list stands for the order in which \<^verbatim>\<open>range\<close> visits the entries, which Go
  leaves open.
\<close>

type_synonym headers = "(string, string) alist"

text \<open>\<^verbatim>\<open>pem.Block\<close>.\<close>

record pem_block =
  Type :: string
  Headers :: headers
  Bytes :: "byte list"

text \<open>
  \<^verbatim>\<open>x509.Certificate\<close> and \<^verbatim>\<open>pkcs7.SignedDataEnvelope\<close>: this file reads their
  \<^verbatim>\<open>Raw\<close> field only.
\<close>

record Certificate =
  cert_Raw :: "byte list"

record SignedDataEnvelope =
  envelope_Raw :: "byte list"

text \<open>
  \<^verbatim>\<open>crypto.PrivateKey\<close> is an empty interface. \<open>keyToPem\<close> tells
  \<^verbatim>\<open>*rsa.PrivateKey\<close> and \<^verbatim>\<open>*ecdsa.PrivateKey\<close> from every other dynamic type, of
  which only the name is kept, as \<^verbatim>\<open>reflect.TypeOf\<close> prints it.
\<close>

record rsa_PrivateKey =
  rsa_N :: int
  rsa_E :: int
  rsa_D :: int
  rsa_Primes :: "int list"

record ecdsa_PrivateKey =
  ecdsa_Curve :: string
  ecdsa_X :: int
  ecdsa_Y :: int
  ecdsa_D :: int

datatype PrivateKey =
  RSA rsa_PrivateKey
| ECDSA ecdsa_PrivateKey
| OtherKey string

text \<open>
  \<^verbatim>\<open>jceks.KeyStore\<close>, by the four methods called here. \<open>GetCert\<close> returns a pointer,
  \<open>None\<close> when it is \<^verbatim>\<open>nil\<close>; the error it returns with it is dropped by the
  caller and is left out.
\<close>

record KeyStore =
  ListCerts :: "string list"
  GetCert :: "string \<Rightarrow> Certificate option"
  ListPrivateKeys :: "string list"
  GetPrivateKeyAndCerts :: "string \<Rightarrow> string \<Rightarrow> error + PrivateKey \<times> Certificate list"

subsection \<open>The functions of other packages\<close>

text \<open>
  The parsers of \<^verbatim>\<open>encoding/pem\<close>, \<^verbatim>\<open>crypto/x509\<close>, \<^verbatim>\<open>pkcs7\<close>, \<^verbatim>\<open>pkcs12\<close> and
  \<^verbatim>\<open>jceks\<close> are not part of this file: every function below takes them as a
  parameter. \<open>pem_Decode\<close> returns \<open>None\<close> for a \<^verbatim>\<open>nil\<close> block, and otherwise
  the block with the rest of the input. \<open>pkcs12_ToPEM\<close> keeps Go's pair of blocks
  and error, since its caller goes on with the blocks whatever the error is.
  \<open>unicode_ToLower\<close> is \<^verbatim>\<open>strings.Map(unicode.ToLower, s)\<close>, the lower case of a
  string by the tables of package \<^verbatim>\<open>unicode\<close>.
\<close>

record library =
  pem_Decode :: "byte list \<Rightarrow> (pem_block \<times> byte list) option"
  x509_ParseCertificate :: "byte list \<Rightarrow> error + Certificate"
  x509_ParseCertificates :: "byte list \<Rightarrow> error + Certificate list"
  pkcs7_ParseSignedData :: "byte list \<Rightarrow> error + SignedDataEnvelope list"
  pkcs7_ExtractCertificates :: "byte list \<Rightarrow> error + Certificate list"
  pkcs12_ToPEM :: "byte list \<Rightarrow> string \<Rightarrow> pem_block list \<times> error option"
  jceks_LoadFromReader :: "stream \<Rightarrow> string \<Rightarrow> error + KeyStore"
  x509_MarshalPKCS1PrivateKey :: "rsa_PrivateKey \<Rightarrow> byte list"
  x509_MarshalECPrivateKey :: "ecdsa_PrivateKey \<Rightarrow> error + byte list"
  unicode_ToLower :: "string \<Rightarrow> string"

text \<open>\<^verbatim>\<open>ioutil.ReadAll\<close>: all bytes up to the end of the input, or the read error.\<close>

definition ReadAll :: "stream \<Rightarrow> error + byte list" where
  "ReadAll reader = (case failure reader of None \<Rightarrow> Inr (content reader) | Some e \<Rightarrow> Inl e)"

subsection \<open>The library calls of formatForFile\<close>

text \<open>
  \<^verbatim>\<open>bufio.Reader.Peek(n)\<close>: the next \<open>n\<close> bytes without consuming them, or the
  error that ended the input before \<open>n\<close> bytes arrived.
\<close>

definition Peek :: "stream \<Rightarrow> nat \<Rightarrow> error + byte list" where
  "Peek file n =
     (if n \<le> length (content file) then Inr (take n (content file))
      else Inl (case failure file of None \<Rightarrow> ''EOF'' | Some e \<Rightarrow> e))"

text \<open>
  \<^verbatim>\<open>binary.BigEndian.Uint32(b)\<close> is
  \<^verbatim>\<open>uint32(b[3]) | uint32(b[2])<<8 | uint32(b[1])<<16 | uint32(b[0])<<24\<close>.
  It is only applied to the four bytes a successful \<open>Peek file 4\<close> returned.
\<close>

definition Uint32 :: "byte list \<Rightarrow> 32 word" where
  "Uint32 b =
     ucast (b ! 3) OR push_bit 8 (ucast (b ! 2)) OR push_bit 16 (ucast (b ! 1))
       OR push_bit 24 (ucast (b ! 0))"

text \<open>
  \<^verbatim>\<open>filepath.Ext(path)\<close> walks back from the last byte until a path separator and
  returns the suffix that starts at the first dot it meets, \<^verbatim>\<open>""\<close> when there is
  none. \<open>ext_scan\<close> is that loop: its first argument holds the bytes still to visit,
  last byte first, its second the bytes already passed.
\<close>

fun ext_scan :: "string \<Rightarrow> string \<Rightarrow> string" where
  "ext_scan [] passed = ''''"
| "ext_scan (c # front) passed =
     (if c = CHR ''/'' then ''''
      else if c = CHR ''.'' then c # passed
      else ext_scan front (c # passed))"

definition Ext :: "string \<Rightarrow> string" where
  "Ext path = ext_scan (rev path) []"

text \<open>
  \<^verbatim>\<open>strings.ToLower\<close>. In a string of ASCII bytes only, the letters \<^verbatim>\<open>A\<close> to
  \<^verbatim>\<open>Z\<close> are replaced and every other byte is kept; a string with a byte from
  \<^verbatim>\<open>0x80\<close> on is decoded as UTF-8 and mapped rune by rune, by the tables of package
  \<^verbatim>\<open>unicode\<close>: that is left to \<open>unicode_ToLower\<close>. (The Kelvin sign, for one, is
  three such bytes and has the lower case \<^verbatim>\<open>k\<close>.)
\<close>

definition lower_char :: "char \<Rightarrow> char" where
  "lower_char c =
     (if 65 \<le> (of_char c :: nat) \<and> (of_char c :: nat) \<le> 90
      then char_of (of_char c + (32 :: nat)) else c)"

definition isASCII :: "string \<Rightarrow> bool" where
  "isASCII s = list_all (\<lambda>c. (of_char c :: nat) < 128) s"

definition ToLower :: "library \<Rightarrow> string \<Rightarrow> string" where
  "ToLower lib s = (if isASCII s then map lower_char s else unicode_ToLower lib s)"

subsection \<open>Format detection\<close>

definition fileExtToFormat :: "string \<rightharpoonup> string" where
  "fileExtToFormat = map_of
     [(''.pem'', ''PEM''), (''.crt'', ''PEM''), (''.p7b'', ''PEM''), (''.p7c'', ''PEM''),
      (''.p12'', ''PKCS12''), (''.pfx'', ''PKCS12''),
      (''.jceks'', ''JCEKS''), (''.jks'', ''JCEKS''),
      (''.der'', ''DER'')]"

text \<open>
  \<^verbatim>\<open>formatForFile(file, filename, format)\<close>: the \<^verbatim>\<open>--format\<close> flag first, then the
  extension, then the first four bytes of the input.
\<close>

definition formatForFile :: "library \<Rightarrow> stream \<Rightarrow> string \<Rightarrow> string \<Rightarrow> error + string" where
  "formatForFile lib file filename format =
     (if format \<noteq> '''' then Inr format
      else case fileExtToFormat (ToLower lib (Ext filename)) of
        Some guess \<Rightarrow> Inr guess
      | None \<Rightarrow>
         (case Peek file 4 of
            Inl err \<Rightarrow> Inl (''unable to read file: '' @ err @ LF)
          | Inr data \<Rightarrow>
             (let magic = Uint32 data in
              if magic = 0xCECECECE \<or> magic = 0xFEEDFEED then Inr ''JCEKS''
              else if magic = 0x2D2D2D2D \<or> magic = 0x434f4e4e then Inr ''PEM''
              else if magic AND 0xFFFF0000 = 0x30820000 then
                (if magic AND 0x0000FF00 = 0x0300 then Inr ''DER'' else Inr ''PKCS12'')
              else Inl ''unable to guess file format'')))"

subsection \<open>Effects and outcomes\<close>

text \<open>
  A callback acts on the state of its consumer. The world a reader runs in is that state
  and what has been printed to \<^verbatim>\<open>os.Stderr\<close>.
\<close>

record 'u world =
  consumer :: 'u
  stderr :: "string list"

definition emit :: "('b \<Rightarrow> 'u \<Rightarrow> 'u) \<Rightarrow> 'b \<Rightarrow> 'u world \<Rightarrow> 'u world" where
  "emit callback block w = w\<lparr>consumer := callback block (consumer w)\<rparr>"

definition Fprint_Stderr :: "string \<Rightarrow> 'u world \<Rightarrow> 'u world" where
  "Fprint_Stderr s w = w\<lparr>stderr := stderr w @ [s]\<rparr>"

text \<open>
  A call returns its \<^verbatim>\<open>error\<close> (\<open>None\<close> for \<^verbatim>\<open>nil\<close>), panics, or is stuck in a
  scanner that hands out tokens without consuming input. The three panics are the
  dereference of a \<^verbatim>\<open>nil\<close> pointer, a slice expression out of range, and the panic of
  \<^verbatim>\<open>bufio.Scanner\<close> on too many empty tokens at the end of the input.
\<close>

datatype panic = NilPointerDereference | SliceBoundsOutOfRange | TooManyEmptyTokens

datatype outcome = Returned "error option" | Panicked panic | Stuck

subsection \<open>Headers\<close>

definition nameHeader :: string where
  "nameHeader = ''friendlyName''"

definition fileHeader :: string where
  "fileHeader = ''originFile''"

text \<open>\<^verbatim>\<open>os.Stdin.Name()\<close>.\<close>

definition Stdin_Name :: string where
  "Stdin_Name = ''/dev/stdin''"

text \<open>
  \<^verbatim>\<open>for k, v := range m { headers[k] = v }\<close>: every entry of \<open>m\<close>, in the order
  \<^verbatim>\<open>range\<close> visits them, is stored in \<open>headers\<close>.
\<close>

definition range_store :: "headers \<Rightarrow> headers \<Rightarrow> headers" where
  "range_store m headers = fold (\<lambda>(k, v). DAList.update k v) (DAList.impl_of m) headers"

definition mergeHeaders :: "headers \<Rightarrow> headers \<Rightarrow> headers" where
  "mergeHeaders baseHeaders extraHeaders =
     range_store extraHeaders (range_store baseHeaders DAList.empty)"

text \<open>
  Go maps are references. On a store of maps, where a reference is an index and a new
  map is appended, \<open>mergeHeaders\<close> allocates \<open>headers\<close> and its two loops store
  into it; the entries of an argument are read from the store when its loop starts.
\<close>

definition range_store_in :: "headers list \<Rightarrow> nat \<Rightarrow> nat \<Rightarrow> headers list" where
  "range_store_in store m headers =
     fold (\<lambda>(k, v) s. s[headers := DAList.update k v (s ! headers)])
       (DAList.impl_of (store ! m)) store"

definition mergeHeaders_in :: "headers list \<Rightarrow> nat \<Rightarrow> nat \<Rightarrow> nat \<times> headers list" where
  "mergeHeaders_in store baseHeaders extraHeaders =
     (let headers = length store;
          s0 = store @ [DAList.empty];
          s1 = range_store_in s0 baseHeaders headers;
          s2 = range_store_in s1 extraHeaders headers
      in (headers, s2))"

text \<open>The map literal \<^verbatim>\<open>map[string]string{nameHeader: alias}\<close>.\<close>

definition name_entry :: "string \<Rightarrow> headers" where
  "name_entry alias = DAList.update nameHeader alias DAList.empty"

subsection \<open>Encoding certificates, envelopes and keys\<close>

definition EncodeX509ToPEM :: "Certificate \<Rightarrow> headers \<Rightarrow> pem_block" where
  "EncodeX509ToPEM cert headers =
     \<lparr>Type = ''CERTIFICATE'', Headers = headers, Bytes = cert_Raw cert\<rparr>"

definition pkcs7ToPem :: "SignedDataEnvelope \<Rightarrow> headers \<Rightarrow> pem_block" where
  "pkcs7ToPem block headers =
     \<lparr>Type = ''PKCS7'', Headers = headers, Bytes = envelope_Raw block\<rparr>"

text \<open>
  \<^verbatim>\<open>reflect.TypeOf(key)\<close>, as \<^verbatim>\<open>%s\<close> prints it in the two error messages of
  \<open>keyToPem\<close>.
\<close>

fun TypeOf :: "PrivateKey \<Rightarrow> string" where
  "TypeOf (RSA k) = ''*rsa.PrivateKey''"
| "TypeOf (ECDSA k) = ''*ecdsa.PrivateKey''"
| "TypeOf (OtherKey name) = name"

definition keyToPem :: "library \<Rightarrow> PrivateKey \<Rightarrow> headers \<Rightarrow> error + pem_block" where
  "keyToPem lib key headers =
     (case key of
        RSA k \<Rightarrow>
          Inr \<lparr>Type = ''RSA PRIVATE KEY'', Headers = headers,
               Bytes = x509_MarshalPKCS1PrivateKey lib k\<rparr>
      | ECDSA k \<Rightarrow>
          (case x509_MarshalECPrivateKey lib k of
             Inl err \<Rightarrow> Inl (''error marshaling key: '' @ TypeOf key @ LF)
           | Inr raw \<Rightarrow> Inr \<lparr>Type = ''EC PRIVATE KEY'', Headers = headers, Bytes = raw\<rparr>)
      | OtherKey name \<Rightarrow> Inl (''unknown key type: '' @ TypeOf key @ LF))"

subsection \<open>The PEM scanner\<close>

text \<open>
  The split function \<open>pemScanner\<close> installs. A negative \<^verbatim>\<open>size\<close> (a rest longer
  than the data) makes \<^verbatim>\<open>data[:size]\<close> panic. The result is the number of bytes
  to advance and the token, \<open>None\<close> for \<^verbatim>\<open>nil\<close>; the function ignores
  \<^verbatim>\<open>atEOF\<close> and never returns an error.
\<close>

definition pemSplit :: "library \<Rightarrow> byte list \<Rightarrow> bool \<Rightarrow> panic + nat \<times> byte list option" where
  "pemSplit lib data atEOF =
     (case pem_Decode lib data of
        Some (block, rest) \<Rightarrow>
          if length data < length rest then Inl SliceBoundsOutOfRange
          else (let size = length data - length rest in Inr (size, Some (take size data)))
      | None \<Rightarrow> Inr (0, None))"

text \<open>
  \<^verbatim>\<open>Read(p)\<close> on the input, for a buffer \<^verbatim>\<open>p\<close> of \<open>room\<close> bytes: the bytes read
  with the error, and the input that is left. At the end of the input the call reads
  nothing and returns the error the input ends with. Before that it reads what is
  ready, as far as there is room, and returns no error: at least one byte when there
  is room for one, as files and the buffered readers on them do. (\<^verbatim>\<open>io.Reader\<close>
  also lets a call return no byte and no error, or the last bytes together with the
  error; such readers are not modelled.)
\<close>

definition Read :: "nat \<Rightarrow> stream \<Rightarrow> (byte list \<times> error option) \<times> stream" where
  "Read room r =
     (if content r = [] then (([], Some (case failure r of None \<Rightarrow> ''EOF'' | Some e \<Rightarrow> e)), r)
      else
        (let ready = (case reads r of [] \<Rightarrow> room | m # ms \<Rightarrow> if m = 0 then room else min room m);
             n = min ready (length (content r))
         in ((take n (content r), None),
             r\<lparr>content := drop n (content r), reads := tl (reads r)\<rparr>)))"

text \<open>
  \<^verbatim>\<open>bufio.Scanner\<close>, as \<^verbatim>\<open>bufio.NewScanner\<close> makes it: the reader, the size of the
  buffer \<^verbatim>\<open>len(s.buf)\<close>, the index \<^verbatim>\<open>s.start\<close>, the bytes \<^verbatim>\<open>s.buf[s.start:s.end]\<close>
  that are held and not yet consumed (so that \<^verbatim>\<open>s.end\<close> is \<open>s_start s + length (s_held s)\<close>),
  the error \<^verbatim>\<open>s.err\<close> and the count \<^verbatim>\<open>s.empties\<close>. The buffer starts empty, takes
  \<open>startBufSize\<close> bytes when it is first needed, and doubles up to
  \<open>MaxScanTokenSize\<close>, the value of \<^verbatim>\<open>s.maxTokenSize\<close>.
\<close>

definition startBufSize :: nat where
  "startBufSize = 4096"

definition MaxScanTokenSize :: nat where
  "MaxScanTokenSize = 64 * 1024"

definition maxConsecutiveEmptyReads :: nat where
  "maxConsecutiveEmptyReads = 100"

record Scanner =
  s_r :: stream
  s_buf :: nat
  s_start :: nat
  s_held :: "byte list"
  s_err :: "error option"
  s_empties :: nat

definition NewScanner :: "stream \<Rightarrow> Scanner" where
  "NewScanner r =
     \<lparr>s_r = r, s_buf = 0, s_start = 0, s_held = [], s_err = None, s_empties = 0\<rparr>"

text \<open>
  The three steps \<^verbatim>\<open>Scan\<close> takes when it must read more data. \<open>shift\<close>: the bytes
  held move to the beginning of the buffer when space is needed or more than half of the
  buffer is free before them. \<open>resize\<close>: a full buffer is replaced by one of twice the
  size, at most \<open>MaxScanTokenSize\<close>; a full buffer of that size is the error
  \<^verbatim>\<open>ErrTooLong\<close>, \<open>None\<close> here, on which \<^verbatim>\<open>Scan\<close> returns \<^verbatim>\<open>false\<close>.
  \<open>read_some\<close> and \<open>fill\<close>: the reader is read into the free end of the buffer,
  again while it returns neither a byte nor an error, and after
  \<open>maxConsecutiveEmptyReads\<close> such calls the error is \<^verbatim>\<open>io.ErrNoProgress\<close>.
\<close>

definition shift :: "Scanner \<Rightarrow> Scanner" where
  "shift s =
     (if 0 < s_start s \<and>
         (s_start s + length (s_held s) = s_buf s \<or> s_buf s div 2 < s_start s)
      then s\<lparr>s_start := 0\<rparr> else s)"

definition resize :: "Scanner \<Rightarrow> Scanner option" where
  "resize s =
     (if s_start s + length (s_held s) = s_buf s then
        (if MaxScanTokenSize \<le> s_buf s then None
         else Some (s\<lparr>s_buf := min (if s_buf s * 2 = 0 then startBufSize else s_buf s * 2)
                                   MaxScanTokenSize,
                      s_start := 0\<rparr>))
      else Some s)"

fun read_some :: "nat \<Rightarrow> nat \<Rightarrow> stream \<Rightarrow> byte list \<times> error option \<times> stream" where
  "read_some 0 room r = ([], Some ''multiple Read calls return no data or error'', r)"
| "read_some (Suc tries) room r =
     (case Read room r of
        ((bytes, Some e), r') \<Rightarrow> (bytes, Some e, r')
      | ((bytes, None), r') \<Rightarrow>
          if bytes \<noteq> [] then (bytes, None, r') else read_some tries room r')"

definition fill :: "Scanner \<Rightarrow> Scanner" where
  "fill s =
     (case read_some (Suc maxConsecutiveEmptyReads)
             (s_buf s - (s_start s + length (s_held s))) (s_r s) of
        (bytes, e, r') \<Rightarrow> s\<lparr>s_r := r', s_held := s_held s @ bytes, s_err := e\<rparr>)"

text \<open>
  The loop \<^verbatim>\<open>for scanner.Scan() { ... }\<close> of the PEM case, with the body of
  \<^verbatim>\<open>Scan\<close> in it. While bytes are held, or the input has ended, the split function
  is tried on the bytes held. A token moves \<^verbatim>\<open>s.start\<close> forward and enters the body
  of the loop: it is decoded again, and the block, of which the headers are merged,
  goes to the callback. A token that consumes nothing is handed out again at the next
  call: before the end of the input that goes on for ever (\<open>Stuck\<close>), at the end of
  the input \<^verbatim>\<open>Scan\<close> panics when it has counted more than
  \<open>maxConsecutiveEmptyReads\<close> of them. Without a token, \<^verbatim>\<open>Scan\<close> returns
  \<^verbatim>\<open>false\<close> when the input has ended or the buffer cannot grow, and reads more
  otherwise. The result \<open>None\<close> says that the loop ran to its end: the error the
  scanner ended with is not read by \<open>readCertsFromStream\<close>.
\<close>

function scan_blocks ::
  "library \<Rightarrow> headers \<Rightarrow> (pem_block \<Rightarrow> 'u \<Rightarrow> 'u) \<Rightarrow> Scanner \<Rightarrow> 'u world
     \<Rightarrow> 'u world \<times> outcome option" where
  "scan_blocks lib headers callback s w =
     (case (if s_held s \<noteq> [] \<or> s_err s \<noteq> None
            then pemSplit lib (s_held s) (s_err s \<noteq> None) else Inr (0, None)) of
        Inl p \<Rightarrow> (w, Some (Panicked p))
      | Inr (advance, Some token) \<Rightarrow>
          if s_err s \<noteq> None \<and> advance = 0 \<and> maxConsecutiveEmptyReads < Suc (s_empties s)
          then (w, Some (Panicked TooManyEmptyTokens))
          else
            (case pem_Decode lib token of
               None \<Rightarrow> (w, Some (Panicked NilPointerDereference))
             | Some (block, rest) \<Rightarrow>
                 (let w' = emit callback (block\<lparr>Headers := mergeHeaders (Headers block) headers\<rparr>) w
                  in if s_err s = None \<and> advance = 0 then (w', Some Stuck)
                     else scan_blocks lib headers callback
                            (s\<lparr>s_start := s_start s + advance,
                               s_held := drop advance (s_held s),
                               s_empties := (if s_err s = None \<or> 0 < advance then 0
                                             else Suc (s_empties s))\<rparr>)
                            w'))
      | Inr (advance, None) \<Rightarrow>
          if s_err s \<noteq> None then (w, None)
          else (case resize (shift s) of
                  None \<Rightarrow> (w, None)
                | Some s' \<Rightarrow> scan_blocks lib headers callback (fill s') w))"
  by pat_completeness auto
termination
proof (relation "measures
    [\<lambda>(lib, headers, callback, s, w). 2 * length (content (s_r s)) + length (s_held s),
     \<lambda>(lib, headers, callback, s, w). if s_err s = None then 1 else 0,
     \<lambda>(lib, headers, callback, s, w). Suc maxConsecutiveEmptyReads - s_empties s]")
  show "wf (measures
    [\<lambda>(lib, headers, callback, s, w). 2 * length (content (s_r s)) + length (s_held s),
     \<lambda>(lib, headers, callback, s, w). if s_err s = None then 1 else 0,
     \<lambda>(lib, headers, callback, s :: Scanner, w :: 'u world).
        Suc maxConsecutiveEmptyReads - s_empties s] :: (library \<times> headers \<times> (pem_block \<Rightarrow> 'u \<Rightarrow> 'u) \<times> Scanner \<times> 'u world) rel)"
    by simp
next
  fix lib :: library and headers :: headers and callback :: "pem_block \<Rightarrow> 'u \<Rightarrow> 'u"
    and s :: Scanner and w w' :: "'u world" and found advance tok token
  assume split: "(if s_held s \<noteq> [] \<or> s_err s \<noteq> None
        then pemSplit lib (s_held s) (s_err s \<noteq> None) else Inr (0, None)) = Inr found"
      "(advance, tok) = found" "tok = Some token"
    and count: "\<not> (s_err s \<noteq> None \<and> advance = 0 \<and> maxConsecutiveEmptyReads < Suc (s_empties s))"
    and stuck: "\<not> (s_err s = None \<and> advance = 0)"
  from split have "advance \<le> length (s_held s)"
    by (auto simp: pemSplit_def Let_def split: option.splits if_splits)
  with count stuck
  show "((lib, headers, callback,
          s\<lparr>s_start := s_start s + advance, s_held := drop advance (s_held s),
            s_empties := (if s_err s = None \<or> 0 < advance then 0 else Suc (s_empties s))\<rparr>, w'),
         (lib, headers, callback, s, w))
        \<in> measures
          [\<lambda>(lib, headers, callback, s, w). 2 * length (content (s_r s)) + length (s_held s),
           \<lambda>(lib, headers, callback, s, w). if s_err s = None then 1 else 0,
           \<lambda>(lib, headers, callback, s, w). Suc maxConsecutiveEmptyReads - s_empties s]"
    by (cases "advance = 0") auto
next
  fix lib :: library and headers :: headers and callback :: "pem_block \<Rightarrow> 'u \<Rightarrow> 'u"
    and s s' :: Scanner and w :: "'u world"
  assume open_end: "\<not> s_err s \<noteq> None" and grown: "resize (shift s) = Some s'"
  have one: "(bytes \<noteq> [] \<and> e = None \<and>
        length (content r') + length bytes = length (content r)) \<or>
      (bytes = [] \<and> e \<noteq> None \<and> content r' = content r)"
    if "read_some tries room r = (bytes, e, r')" for tries room r bytes e r'
    using that
  proof (induction tries arbitrary: r)
    case 0
    then show ?case
      by auto
  next
    case (Suc tries)
    show ?case
    proof (cases "content r = []")
      case True
      with Suc.prems show ?thesis
        by (auto simp: Read_def)
    next
      case False
      define n where "n = min (case reads r of [] \<Rightarrow> room
                               | m # ms \<Rightarrow> if m = 0 then room else min room m)
                          (length (content r))"
      from False have read: "Read room r =
          ((take n (content r), None), r\<lparr>content := drop n (content r), reads := tl (reads r)\<rparr>)"
        by (simp add: Read_def Let_def n_def)
      show ?thesis
      proof (cases "take n (content r) = []")
        case True
        with read Suc.prems
        have "read_some tries room (r\<lparr>content := drop n (content r), reads := tl (reads r)\<rparr>)
            = (bytes, e, r')"
          by simp
        from Suc.IH [OF this] True False show ?thesis
          by auto
      next
        case some: False
        with read Suc.prems
        have "bytes = take n (content r)" "e = None"
          "r' = r\<lparr>content := drop n (content r), reads := tl (reads r)\<rparr>"
          by simp_all
        moreover have "length (drop n (content r)) + length (take n (content r))
            = length (content r)"
          by simp
        ultimately show ?thesis
          using some by simp
      qed
    qed
  qed
  from grown have same: "s_held s' = s_held s" "s_r s' = s_r s" "s_err s' = s_err s"
    by (auto simp: resize_def shift_def split: if_splits)
  obtain bytes e r' where got: "read_some (Suc maxConsecutiveEmptyReads)
      (s_buf s' - (s_start s' + length (s_held s'))) (s_r s') = (bytes, e, r')"
    by (cases "read_some (Suc maxConsecutiveEmptyReads)
      (s_buf s' - (s_start s' + length (s_held s'))) (s_r s')") auto
  from got have filled: "fill s' = s'\<lparr>s_r := r', s_held := s_held s' @ bytes, s_err := e\<rparr>"
    by (simp add: fill_def)
  from one [OF got]
  have "2 * length (content r') + (length (s_held s') + length bytes)
        < 2 * length (content (s_r s')) + length (s_held s') \<or>
      (bytes = [] \<and> e \<noteq> None \<and> content r' = content (s_r s'))"
  proof
    assume "bytes \<noteq> [] \<and> e = None \<and>
      length (content r') + length bytes = length (content (s_r s'))"
    moreover from this have "0 < length bytes"
      by simp
    ultimately show ?thesis
      by arith
  next
    assume "bytes = [] \<and> e \<noteq> None \<and> content r' = content (s_r s')"
    then show ?thesis
      by simp
  qed
  with same open_end
  show "((lib, headers, callback, fill s', w), (lib, headers, callback, s, w))
        \<in> measures
          [\<lambda>(lib, headers, callback, s, w). 2 * length (content (s_r s)) + length (s_held s),
           \<lambda>(lib, headers, callback, s, w). if s_err s = None then 1 else 0,
           \<lambda>(lib, headers, callback, s, w). Suc maxConsecutiveEmptyReads - s_empties s]"
    unfolding filled by auto
qed

declare scan_blocks.simps [simp del]

text \<open>
  An input made of PEM blocks one after the other, as C7 has it: \<open>data\<close> holds the
  blocks \<open>blocks\<close>, in this order, and nothing else that decodes. The scanner shows
  \<open>pem_Decode\<close> the first \<open>n\<close> bytes of the data, for an \<open>n\<close> up to the size of its
  buffer that depends on how the bytes arrive. While blocks are to come, the decoder
  either finds no block, and then there are more bytes to show and room for them, or it
  finds one and consumes at least a byte: then it finds the first of the blocks in the
  bytes it has consumed, and the bytes after them hold the other blocks in the same
  way. When no block is to come, it finds none.
\<close>

fun pem_sequence :: "library \<Rightarrow> pem_block list \<Rightarrow> byte list \<Rightarrow> bool" where
  "pem_sequence lib [] data =
     (\<forall>n\<in>{..min (length data) MaxScanTokenSize}. pem_Decode lib (take n data) = None)"
| "pem_sequence lib (b # bs) data =
     (\<forall>n\<in>{..min (length data) MaxScanTokenSize}.
        case pem_Decode lib (take n data) of
          None \<Rightarrow> n < length data \<and> n < MaxScanTokenSize
        | Some (found, rest) \<Rightarrow>
            length rest < n \<and>
            (case pem_Decode lib (take (n - length rest) data) of
               None \<Rightarrow> False
             | Some (block, rest') \<Rightarrow>
                 block = b \<and> pem_sequence lib bs (drop (n - length rest) data)))"

subsection \<open>The JCEKS loops\<close>

text \<open>
  The loop over \<^verbatim>\<open>keyStore.ListCerts()\<close>. \<open>EncodeX509ToPEM\<close> reads \<^verbatim>\<open>cert.Raw\<close>,
  which panics on a \<^verbatim>\<open>nil\<close> certificate.
\<close>

fun jceks_certs ::
  "KeyStore \<Rightarrow> headers \<Rightarrow> (pem_block \<Rightarrow> 'u \<Rightarrow> 'u) \<Rightarrow> string list \<Rightarrow> 'u world
     \<Rightarrow> 'u world \<times> outcome option" where
  "jceks_certs keyStore headers callback [] w = (w, None)"
| "jceks_certs keyStore headers callback (alias # aliases) w =
     (case GetCert keyStore alias of
        None \<Rightarrow> (w, Some (Panicked NilPointerDereference))
      | Some cert \<Rightarrow>
          jceks_certs keyStore headers callback aliases
            (emit callback (EncodeX509ToPEM cert (mergeHeaders headers (name_entry alias))) w))"

text \<open>The loop over \<^verbatim>\<open>keyStore.ListPrivateKeys()\<close>, with its two early returns.\<close>

fun jceks_keys ::
  "library \<Rightarrow> KeyStore \<Rightarrow> headers \<Rightarrow> (string \<Rightarrow> string) \<Rightarrow> (pem_block \<Rightarrow> 'u \<Rightarrow> 'u)
     \<Rightarrow> string list \<Rightarrow> 'u world \<Rightarrow> 'u world \<times> outcome option" where
  "jceks_keys lib keyStore headers password callback [] w = (w, None)"
| "jceks_keys lib keyStore headers password callback (alias # aliases) w =
     (case GetPrivateKeyAndCerts keyStore alias (password alias) of
        Inl err \<Rightarrow> (w, Some (Returned (Some (''error parsing keystore: '' @ err @ LF))))
      | Inr (key, certs) \<Rightarrow>
          (case keyToPem lib key (mergeHeaders headers (name_entry alias)) of
             Inl err \<Rightarrow> (w, Some (Returned (Some (''error reading key: '' @ err @ LF))))
           | Inr block \<Rightarrow>
               jceks_keys lib keyStore headers password callback aliases
                 (fold (\<lambda>cert. emit callback
                          (EncodeX509ToPEM cert (mergeHeaders headers (name_entry alias))))
                    certs (emit callback block w))))"

text \<open>
  What C4 expects for one alias, from the answers of the keystore: for the alias of a
  certificate, the certificate; for the alias of a private key, the block of the key and
  then the certificates of its chain, in the order of the chain.
\<close>

definition cert_alias_blocks :: "KeyStore \<Rightarrow> headers \<Rightarrow> string \<Rightarrow> pem_block list" where
  "cert_alias_blocks keyStore headers alias =
     (case GetCert keyStore alias of
        None \<Rightarrow> []
      | Some cert \<Rightarrow> [EncodeX509ToPEM cert (mergeHeaders headers (name_entry alias))])"

definition key_alias_blocks ::
  "library \<Rightarrow> KeyStore \<Rightarrow> headers \<Rightarrow> (string \<Rightarrow> string) \<Rightarrow> string \<Rightarrow> pem_block list" where
  "key_alias_blocks lib keyStore headers password alias =
     (case GetPrivateKeyAndCerts keyStore alias (password alias) of
        Inl err \<Rightarrow> []
      | Inr (key, certs) \<Rightarrow>
          (case keyToPem lib key (mergeHeaders headers (name_entry alias)) of
             Inl err \<Rightarrow> []
           | Inr block \<Rightarrow>
               block #
               map (\<lambda>cert. EncodeX509ToPEM cert (mergeHeaders headers (name_entry alias))) certs))"

subsection \<open>readCertsFromStream\<close>

text \<open>
  Only the DER case returns \<^verbatim>\<open>nil\<close>. The other three cases have no
  \<^verbatim>\<open>return\<close> on their successful path and leave the \<^verbatim>\<open>switch\<close> for the last
  statement of the function, as an unknown format does.
\<close>

definition unknown_file_type :: "string \<Rightarrow> outcome" where
  "unknown_file_type format = Returned (Some (''unknown file type: '' @ format @ LF))"

text \<open>
  The first statements of the function: the headers that say where the blocks come
  from, empty for an input with no name and for standard input.
\<close>

definition origin_headers :: "string \<Rightarrow> headers" where
  "origin_headers filename =
     (if filename \<noteq> '''' \<and> filename \<noteq> Stdin_Name
      then DAList.update fileHeader filename DAList.empty else DAList.empty)"

definition readCertsFromStream ::
  "library \<Rightarrow> stream \<Rightarrow> string \<Rightarrow> string \<Rightarrow> (string \<Rightarrow> string) \<Rightarrow> (pem_block \<Rightarrow> 'u \<Rightarrow> 'u)
     \<Rightarrow> 'u world \<Rightarrow> 'u world \<times> outcome" where
  "readCertsFromStream lib reader filename format password callback w =
     (let headers = origin_headers filename in
      if format = ''PEM'' then
        (case scan_blocks lib headers callback (NewScanner reader) w of
           (w', Some stop) \<Rightarrow> (w', stop)
         | (w', None) \<Rightarrow> (w', unknown_file_type format))
      else if format = ''DER'' then
        (case ReadAll reader of
           Inl err \<Rightarrow> (w, Returned (Some (''error reading input: '' @ err @ LF)))
         | Inr data \<Rightarrow>
             (case x509_ParseCertificates lib data of
                Inr x509Certs \<Rightarrow>
                  (fold (\<lambda>cert. emit callback (EncodeX509ToPEM cert headers)) x509Certs w,
                   Returned None)
              | Inl err \<Rightarrow>
                  (case pkcs7_ParseSignedData lib data of
                     Inr p7bBlocks \<Rightarrow>
                       (fold (\<lambda>block. emit callback (pkcs7ToPem block headers)) p7bBlocks w,
                        Returned None)
                   | Inl err \<Rightarrow>
                       (w, Returned (Some (''error parsing certificates from DER data'' @ LF))))))
      else if format = ''PKCS12'' then
        (case ReadAll reader of
           Inl err \<Rightarrow> (w, Returned (Some (''error reading input: '' @ err @ LF)))
         | Inr data \<Rightarrow>
             (case pkcs12_ToPEM lib data (password '''') of
                (blocks, err) \<Rightarrow>
                  (let w1 =
                     (if err \<noteq> None \<or> length blocks = 0
                      then Fprint_Stderr
                             (''keystore appears to be empty or password was incorrect'' @ LF) w
                      else w)
                   in (fold (\<lambda>block. emit callback
                                (block\<lparr>Headers := mergeHeaders (Headers block) headers\<rparr>))
                         blocks w1,
                       unknown_file_type format))))
      else if format = ''JCEKS'' then
        (case jceks_LoadFromReader lib reader (password '''') of
           Inl err \<Rightarrow> (w, Returned (Some (''error parsing keystore: '' @ err @ LF)))
         | Inr keyStore \<Rightarrow>
             (case jceks_certs keyStore headers callback (ListCerts keyStore) w of
                (w1, Some stop) \<Rightarrow> (w1, stop)
              | (w1, None) \<Rightarrow>
                  (case jceks_keys lib keyStore headers password callback
                          (ListPrivateKeys keyStore) w1 of
                     (w2, Some stop) \<Rightarrow> (w2, stop)
                   | (w2, None) \<Rightarrow> (w2, unknown_file_type format))))
      else (w, unknown_file_type format))"

text \<open>The warning of the PKCS12 case, under a name for the statements below.\<close>

definition keystore_warning :: string where
  "keystore_warning = ''keystore appears to be empty or password was incorrect'' @ LF"

subsection \<open>The four readers\<close>

text \<open>
  \<^verbatim>\<open>*os.File\<close>: the name \<^verbatim>\<open>file.Name()\<close> returns, and the bytes read from it.
\<close>

record os_File =
  Name :: string
  input :: stream

text \<open>
  In each loop the declaration \<^verbatim>\<open>format, err := formatForFile(..., format)\<close> opens a
  new variable for the body: every iteration passes the caller's \<^verbatim>\<open>format\<close>. The
  value \<open>readCertsFromStream\<close> returns is not assigned: the loop goes on to the next
  input whatever it is. A panic, or a scanner that is stuck, ends the reader.
\<close>

fun ReadPEMFromFiles ::
  "library \<Rightarrow> os_File list \<Rightarrow> string \<Rightarrow> (string \<Rightarrow> string) \<Rightarrow> (pem_block \<Rightarrow> 'u \<Rightarrow> 'u)
     \<Rightarrow> 'u world \<Rightarrow> 'u world \<times> outcome" where
  "ReadPEMFromFiles lib [] format password callback w = (w, Returned None)"
| "ReadPEMFromFiles lib (file # files) format password callback w =
     (case formatForFile lib (input file) (Name file) format of
        Inl err \<Rightarrow>
          (w, Returned (Some (''unable to guess file type (for file '' @ Name file @ '')'' @ LF)))
      | Inr format' \<Rightarrow>
          (case readCertsFromStream lib (input file) (Name file) format' password callback w of
             (w', Returned err) \<Rightarrow> ReadPEMFromFiles lib files format password callback w'
           | (w', stop) \<Rightarrow> (w', stop)))"

fun ReadPEM ::
  "library \<Rightarrow> stream list \<Rightarrow> string \<Rightarrow> (string \<Rightarrow> string) \<Rightarrow> (pem_block \<Rightarrow> 'u \<Rightarrow> 'u)
     \<Rightarrow> 'u world \<Rightarrow> 'u world \<times> outcome" where
  "ReadPEM lib [] format password callback w = (w, Returned None)"
| "ReadPEM lib (r # readers) format password callback w =
     (case formatForFile lib r '''' format of
        Inl err \<Rightarrow> (w, Returned (Some ''unable to guess format for input stream''))
      | Inr format' \<Rightarrow>
          (case readCertsFromStream lib r '''' format' password callback w of
             (w', Returned err) \<Rightarrow> ReadPEM lib readers format password callback w'
           | (w', stop) \<Rightarrow> (w', stop)))"

text \<open>\<open>pemToX509\<close> turns a callback on certificates into a callback on blocks.\<close>

definition pemToX509 :: "library \<Rightarrow> (Certificate \<Rightarrow> 'u \<Rightarrow> 'u) \<Rightarrow> pem_block \<Rightarrow> 'u \<Rightarrow> 'u" where
  "pemToX509 lib callback block u =
     (if Type block = ''CERTIFICATE'' then
        (case x509_ParseCertificate lib (Bytes block) of
           Inr cert \<Rightarrow> callback cert u
         | Inl err \<Rightarrow> u)
      else if Type block = ''PKCS7'' then
        (case pkcs7_ExtractCertificates lib (Bytes block) of
           Inr certs \<Rightarrow> fold callback certs u
         | Inl err \<Rightarrow> u)
      else u)"

fun ReadX509FromFiles ::
  "library \<Rightarrow> os_File list \<Rightarrow> string \<Rightarrow> (string \<Rightarrow> string) \<Rightarrow> (Certificate \<Rightarrow> 'u \<Rightarrow> 'u)
     \<Rightarrow> 'u world \<Rightarrow> 'u world \<times> outcome" where
  "ReadX509FromFiles lib [] format password callback w = (w, Returned None)"
| "ReadX509FromFiles lib (file # files) format password callback w =
     (case formatForFile lib (input file) (Name file) format of
        Inl err \<Rightarrow>
          (w, Returned (Some (''unable to guess file type (for file '' @ Name file @ '')'')))
      | Inr format' \<Rightarrow>
          (case readCertsFromStream lib (input file) (Name file) format' password
                  (pemToX509 lib callback) w of
             (w', Returned err) \<Rightarrow> ReadX509FromFiles lib files format password callback w'
           | (w', stop) \<Rightarrow> (w', stop)))"

fun ReadX509 ::
  "library \<Rightarrow> stream list \<Rightarrow> string \<Rightarrow> (string \<Rightarrow> string) \<Rightarrow> (Certificate \<Rightarrow> 'u \<Rightarrow> 'u)
     \<Rightarrow> 'u world \<Rightarrow> 'u world \<times> outcome" where
  "ReadX509 lib [] format password callback w = (w, Returned None)"
| "ReadX509 lib (r # readers) format password callback w =
     (case formatForFile lib r '''' format of
        Inl err \<Rightarrow> (w, Returned (Some ''unable to guess format for input stream''))
      | Inr format' \<Rightarrow>
          (case readCertsFromStream lib r '''' format' password (pemToX509 lib callback) w of
             (w', Returned err) \<Rightarrow> ReadX509 lib readers format password callback w'
           | (w', stop) \<Rightarrow> (w', stop)))"

subsection \<open>Example inputs\<close>

text \<open>
  Concrete inputs, on which the theorems below are instantiated. A callback that
  appends what it receives to a list records the emissions in their order.
\<close>

definition collect :: "'b \<Rightarrow> 'b list \<Rightarrow> 'b list" where
  "collect block seen = seen @ [block]"

definition quiet :: "'b list world" where
  "quiet = \<lparr>consumer = [], stderr = []\<rparr>"

text \<open>
  A PEM text with a header line, as bytes, and the block \<^verbatim>\<open>pem.Decode\<close> reads from
  it (\<^verbatim>\<open>AQID\<close> is the base64 encoding of the bytes 1, 2, 3).
\<close>

definition demo_pem_text :: string where
  "demo_pem_text =
     ''-----BEGIN CERTIFICATE-----'' @ LF @
     ''originFile: other.pem'' @ LF @
     LF @
     ''AQID'' @ LF @
     ''-----END CERTIFICATE-----'' @ LF"

definition demo_token :: "byte list" where
  "demo_token = map of_char demo_pem_text"

definition demo_block :: pem_block where
  "demo_block =
     \<lparr>Type = ''CERTIFICATE'',
      Headers = DAList.update ''originFile'' ''other.pem'' DAList.empty,
      Bytes = [1, 2, 3]\<rparr>"

text \<open>
  A decoder that knows this one text: it finds the block at the start of its input and
  returns the bytes after it.
\<close>

definition demo_Decode :: "byte list \<Rightarrow> (pem_block \<times> byte list) option" where
  "demo_Decode data =
     (if take (length demo_token) data = demo_token
      then Some (demo_block, drop (length demo_token) data) else None)"

text \<open>
  A stand-in for the tables of package \<^verbatim>\<open>unicode\<close>, which knows the ASCII letters
  and the Kelvin sign, in UTF-8 the bytes \<open>E2 84 AA\<close>.
\<close>

fun demo_unicode_lower :: "string \<Rightarrow> string" where
  "demo_unicode_lower (a # b # c # s) =
     (if [a, b, c] = [CHR 0xE2, CHR 0x84, CHR 0xAA] then CHR ''k'' # demo_unicode_lower s
      else lower_char a # demo_unicode_lower (b # c # s))"
| "demo_unicode_lower s = map lower_char s"

text \<open>
  Stand-ins for the other parsers: DER data is accepted when it starts with the
  SEQUENCE tag \<open>30\<close>; the PKCS#12 archive and the keystore open with the password
  \<^verbatim>\<open>changeit\<close>; the keystore holds the certificate \<^verbatim>\<open>root-ca\<close> and the key
  \<^verbatim>\<open>server\<close>, protected by \<^verbatim>\<open>keypass\<close>, with a chain of two certificates; an
  elliptic-curve key is marshaled when its curve is one of the four named curves of
  \<^verbatim>\<open>crypto/x509\<close>.
\<close>

definition demo_parse_der :: "byte list \<Rightarrow> error + Certificate" where
  "demo_parse_der data =
     (case data of
        [] \<Rightarrow> Inl ''asn1: syntax error: sequence truncated''
      | b # bs \<Rightarrow>
          if b = 0x30 then Inr \<lparr>cert_Raw = data\<rparr>
          else Inl ''asn1: structure error: tags do not match'')"

definition demo_rsa_key :: rsa_PrivateKey where
  "demo_rsa_key = \<lparr>rsa_N = 3233, rsa_E = 17, rsa_D = 413, rsa_Primes = [61, 53]\<rparr>"

definition demo_ec_key :: ecdsa_PrivateKey where
  "demo_ec_key = \<lparr>ecdsa_Curve = ''P-256'', ecdsa_X = 5, ecdsa_Y = 7, ecdsa_D = 11\<rparr>"

definition demo_root :: Certificate where
  "demo_root = \<lparr>cert_Raw = [0x30, 0x82, 0x03, 0x01]\<rparr>"

definition demo_leaf :: Certificate where
  "demo_leaf = \<lparr>cert_Raw = [0x30, 0x82, 0x03, 0x02]\<rparr>"

definition demo_intermediate :: Certificate where
  "demo_intermediate = \<lparr>cert_Raw = [0x30, 0x82, 0x03, 0x03]\<rparr>"

definition demo_keyStore :: KeyStore where
  "demo_keyStore =
     \<lparr>ListCerts = [''root-ca''],
      GetCert = (\<lambda>alias. if alias = ''root-ca'' then Some demo_root else None),
      ListPrivateKeys = [''server''],
      GetPrivateKeyAndCerts = (\<lambda>alias password.
        if alias = ''server'' \<and> password = ''keypass''
        then Inr (RSA demo_rsa_key, [demo_leaf, demo_intermediate])
        else Inl ''jceks: unable to recover key'')\<rparr>"

definition demo_library :: library where
  "demo_library =
     \<lparr>pem_Decode = demo_Decode,
      x509_ParseCertificate = demo_parse_der,
      x509_ParseCertificates = (\<lambda>data. map_sum id (\<lambda>cert. [cert]) (demo_parse_der data)),
      pkcs7_ParseSignedData = (\<lambda>data. Inl ''pkcs7: not signed data''),
      pkcs7_ExtractCertificates = (\<lambda>data. Inl ''pkcs7: not signed data''),
      pkcs12_ToPEM = (\<lambda>data password.
        if password = ''changeit'' then ([demo_block], None)
        else ([], Some ''pkcs12: decryption password incorrect'')),
      jceks_LoadFromReader = (\<lambda>reader password.
        if password = ''changeit'' then Inr demo_keyStore
        else Inl ''jceks: invalid digest''),
      x509_MarshalPKCS1PrivateKey = (\<lambda>key. [0x30, 0x82, 0x01, 0x3B]),
      x509_MarshalECPrivateKey = (\<lambda>key.
        if ecdsa_Curve key \<in> set [''P-224'', ''P-256'', ''P-384'', ''P-521'']
        then Inr [0x30, 0x77] else Inl ''x509: unknown elliptic curve''),
      unicode_ToLower = demo_unicode_lower\<rparr>"

text \<open>Two password providers: one knows the passwords, the other does not.\<close>

definition demo_password :: "string \<Rightarrow> string" where
  "demo_password alias = (if alias = '''' then ''changeit'' else ''keypass'')"

definition wrong_password :: "string \<Rightarrow> string" where
  "wrong_password alias = ''secret''"

text \<open>Two header maps with the same entries in two orders, and a map to merge in.\<close>

definition demo_base :: headers where
  "demo_base =
     DAList.update ''Proc-Type'' ''4,ENCRYPTED''
       (DAList.update ''originFile'' ''old.pem'' DAList.empty)"

definition demo_base' :: headers where
  "demo_base' =
     DAList.update ''originFile'' ''old.pem''
       (DAList.update ''Proc-Type'' ''4,ENCRYPTED'' DAList.empty)"

definition demo_extra :: headers where
  "demo_extra = DAList.update ''originFile'' ''new.pem'' DAList.empty"

text \<open>An elliptic-curve key on a curve \<^verbatim>\<open>crypto/x509\<close> has no name for.\<close>

definition demo_koblitz_key :: ecdsa_PrivateKey where
  "demo_koblitz_key = \<lparr>ecdsa_Curve = ''secp256k1'', ecdsa_X = 5, ecdsa_Y = 7, ecdsa_D = 11\<rparr>"

text \<open>The same keystore without its certificate entry, and a library that opens it.\<close>

definition demo_key_only :: KeyStore where
  "demo_key_only = demo_keyStore\<lparr>ListCerts := []\<rparr>"

definition demo_key_only_library :: library where
  "demo_key_only_library =
     demo_library\<lparr>jceks_LoadFromReader := (\<lambda>reader password. Inr demo_key_only)\<rparr>"

definition demo_jceks_stream :: stream where
  "demo_jceks_stream = \<lparr>content = [0xCE, 0xCE, 0xCE, 0xCE, 0x00, 0x00, 0x00, 0x02], failure = None, reads = []\<rparr>"

text \<open>
  Four inputs: one that is not DER, a DER certificate, an empty one, and a PKCS#12
  archive, which starts \<open>30 82\<close> with a third byte other than \<open>03\<close>.
\<close>

definition demo_garbage :: stream where
  "demo_garbage = \<lparr>content = [0x00, 0x01, 0x02, 0x03, 0x04], failure = None, reads = []\<rparr>"

definition demo_der :: stream where
  "demo_der = \<lparr>content = [0x30, 0x82, 0x03, 0x9F, 0x30, 0x82], failure = None, reads = []\<rparr>"

definition demo_empty :: stream where
  "demo_empty = \<lparr>content = [], failure = None, reads = []\<rparr>"

definition demo_p12 :: stream where
  "demo_p12 = \<lparr>content = [0x30, 0x82, 0x0A, 0x2B, 0x02, 0x01, 0x03], failure = None, reads = []\<rparr>"

definition demo_der_file :: os_File where
  "demo_der_file = \<lparr>Name = ''chain.der'', input = demo_der\<rparr>"

definition demo_empty_file :: os_File where
  "demo_empty_file = \<lparr>Name = ''notes'', input = demo_empty\<rparr>"

definition demo_p12_file :: os_File where
  "demo_p12_file = \<lparr>Name = ''store.p12'', input = demo_p12\<rparr>"

text \<open>
  The PEM text three times in a row, of which the first read delivers 16 bytes and the
  second 100.
\<close>

definition demo_three :: stream where
  "demo_three =
     \<lparr>content = demo_token @ demo_token @ demo_token, failure = None, reads = [16, 100]\<rparr>"

text \<open>
  The name of an empty file, with the Kelvin sign in its extension.
\<close>

definition demo_kelvin_name :: string where
  "demo_kelvin_name = ''notes.j'' @ [CHR 0xE2, CHR 0x84, CHR 0xAA] @ ''s''"

text \<open>
  A block that takes 70000 bytes, more than the buffer of the scanner holds: a decoder
  that finds a block once it is shown that many bytes, a library with this decoder,
  and an input of 70000 bytes.
\<close>

definition demo_long_Decode :: "byte list \<Rightarrow> (pem_block \<times> byte list) option" where
  "demo_long_Decode data =
     (if 70000 \<le> length data then Some (demo_block, drop 70000 data) else None)"

definition demo_long_library :: library where
  "demo_long_library = demo_library\<lparr>pem_Decode := demo_long_Decode\<rparr>"

definition demo_long :: stream where
  "demo_long = \<lparr>content = replicate 70000 0x41, failure = None, reads = []\<rparr>"

section \<open>Properties\<close>

subsection \<open>Format detection\<close>

text \<open>
  Two words, or two bytes, are equal when they agree on every bit; the bits are
  listed one by one, so that the masks of \<open>formatForFile\<close> are compared bit by bit.
\<close>

lemma all_less_8:
  "(\<forall>i<(8::nat). P i) \<longleftrightarrow> P 0 \<and> P 1 \<and> P 2 \<and> P 3 \<and> P 4 \<and> P 5 \<and> P 6 \<and> P 7"
proof -
  have "(\<forall>i<(8::nat). P i) \<longleftrightarrow> (\<forall>i\<in>{..<(8::nat)}. P i)"
    by auto
  also have "{..<(8::nat)} = {0, 1, 2, 3, 4, 5, 6, 7}"
    by auto
  finally show ?thesis
    by simp
qed

lemma shifted_block:
  fixes i k :: nat
  assumes "\<forall>j<8. P (k + j)" and "k \<le> i" and "i < k + 8"
  shows "P i"
proof -
  from assms(2,3) have "i - k < 8" and "k + (i - k) = i"
    by arith+
  with assms(1) show ?thesis
    by metis
qed

lemma all_less_32:
  "(\<forall>i<(32::nat). P i) \<longleftrightarrow>
   (\<forall>i<8. P i) \<and> (\<forall>i<8. P (8 + i)) \<and> (\<forall>i<8. P (16 + i)) \<and> (\<forall>i<8. P (24 + i))"
proof
  assume "\<forall>i<(32::nat). P i"
  then show "(\<forall>i<8. P i) \<and> (\<forall>i<8. P (8 + i)) \<and> (\<forall>i<8. P (16 + i)) \<and> (\<forall>i<8. P (24 + i))"
    by simp
next
  assume blocks:
    "(\<forall>i<8. P i) \<and> (\<forall>i<8. P (8 + i)) \<and> (\<forall>i<8. P (16 + i)) \<and> (\<forall>i<8. P (24 + i))"
  show "\<forall>i<(32::nat). P i"
  proof (intro allI impI)
    fix i :: nat
    assume "i < 32"
    then consider "i < 8" | "8 \<le> i" "i < 8 + 8" | "16 \<le> i" "i < 16 + 8" | "24 \<le> i" "i < 24 + 8"
      by arith
    then show "P i"
    proof cases
      case 1
      with blocks show ?thesis by blast
    next
      case 2
      with blocks show ?thesis by (blast intro: shifted_block [where k = 8])
    next
      case 3
      with blocks show ?thesis by (blast intro: shifted_block [where k = 16])
    next
      case 4
      with blocks show ?thesis by (blast intro: shifted_block [where k = 24])
    qed
  qed
qed

lemma word32_eq_bits: "(x :: 32 word) = y \<longleftrightarrow> (\<forall>n<32. bit x n = bit y n)"
  by (auto intro: bit_word_eqI)

lemma word8_eq_bits: "(x :: 8 word) = y \<longleftrightarrow> (\<forall>n<8. bit x n = bit y n)"
  by (auto intro: bit_word_eqI)

lemma bit8_high: "8 \<le> n \<Longrightarrow> bit (b :: 8 word) n = False"
  by (auto dest: bit_imp_le_length)

lemmas magic_bits = word32_eq_bits word8_eq_bits all_less_8 all_less_32

text \<open>The two masks of \<open>formatForFile\<close> test the first two bytes and the third byte.\<close>

lemma Uint32_sequence_tag:
  "Uint32 [b0, b1, b2, b3] AND 0xFFFF0000 = 0x30820000 \<longleftrightarrow> b0 = 0x30 \<and> b1 = 0x82"
  unfolding Uint32_def
  apply (simp only: magic_bits)
  apply (simp add: bit_simps bit8_high)
  apply blast?
  done

lemma Uint32_third_byte:
  "Uint32 [b0, b1, b2, b3] AND 0x0000FF00 = 0x0300 \<longleftrightarrow> b2 = 0x03"
  unfolding Uint32_def
  apply (simp only: magic_bits)
  apply (simp add: bit_simps bit8_high)
  apply blast?
  done

lemma Uint32_CECECECE:
  "Uint32 [b0, b1, b2, b3] = 0xCECECECE \<longleftrightarrow> [b0, b1, b2, b3] = [0xCE, 0xCE, 0xCE, 0xCE]"
  unfolding Uint32_def
  apply (simp only: magic_bits list.inject)
  apply (simp add: bit_simps bit8_high)
  apply blast?
  done

lemma Uint32_FEEDFEED:
  "Uint32 [b0, b1, b2, b3] = 0xFEEDFEED \<longleftrightarrow> [b0, b1, b2, b3] = [0xFE, 0xED, 0xFE, 0xED]"
  unfolding Uint32_def
  apply (simp only: magic_bits list.inject)
  apply (simp add: bit_simps bit8_high)
  apply blast?
  done

lemma Uint32_2D2D2D2D:
  "Uint32 [b0, b1, b2, b3] = 0x2D2D2D2D \<longleftrightarrow> [b0, b1, b2, b3] = [0x2D, 0x2D, 0x2D, 0x2D]"
  unfolding Uint32_def
  apply (simp only: magic_bits list.inject)
  apply (simp add: bit_simps bit8_high)
  apply blast?
  done

lemma Uint32_434F4E4E:
  "Uint32 [b0, b1, b2, b3] = 0x434f4e4e \<longleftrightarrow> [b0, b1, b2, b3] = [0x43, 0x4F, 0x4E, 0x4E]"
  unfolding Uint32_def
  apply (simp only: magic_bits list.inject)
  apply (simp add: bit_simps bit8_high)
  apply blast?
  done

lemma Peek_4:
  assumes "take 4 (content file) = [b0, b1, b2, b3]"
  shows "Peek file 4 = Inr [b0, b1, b2, b3]"
proof -
  from assms have "length (take 4 (content file)) = 4"
    by simp
  then have "4 \<le> length (content file)"
    by simp
  with assms show ?thesis
    by (simp add: Peek_def)
qed

lemma Peek_length: "Peek file n = Inr data \<Longrightarrow> length data = n"
  by (auto simp: Peek_def split: if_splits)

lemma Peek_short: "length (content file) < n \<Longrightarrow> \<exists>err. Peek file n = Inl err"
  by (simp add: Peek_def)

text \<open>
  C2, as amended. With no format hint and an extension that, in the lower case
  \<^verbatim>\<open>strings.ToLower\<close> gives it, is not in the table, an
  input whose first four bytes are \<open>b0 b1 b2 b3\<close> resolves to JCEKS for
  \<open>CE CE CE CE\<close> and \<open>FE ED FE ED\<close>, to PEM for \<open>2D 2D 2D 2D\<close> and
  \<open>43 4F 4E 4E\<close>, to DER when \<open>b0 b1\<close> is \<open>30 82\<close> and the third byte \<open>b2\<close>
  is \<open>03\<close> (the pattern \<open>0x308203xx\<close>), to PKCS12 for every other value that
  starts with \<open>30 82\<close>, and to an error otherwise. The file name does not occur in
  the result.
\<close>

theorem formatForFile_magic:
  assumes "fileExtToFormat (ToLower lib (Ext filename)) = None"
    and "take 4 (content reader) = [b0, b1, b2, b3]"
  shows "formatForFile lib reader filename '''' =
     (if [b0, b1, b2, b3] = [0xCE, 0xCE, 0xCE, 0xCE] \<or> [b0, b1, b2, b3] = [0xFE, 0xED, 0xFE, 0xED]
      then Inr ''JCEKS''
      else if [b0, b1, b2, b3] = [0x2D, 0x2D, 0x2D, 0x2D] \<or>
              [b0, b1, b2, b3] = [0x43, 0x4F, 0x4E, 0x4E]
      then Inr ''PEM''
      else if b0 = 0x30 \<and> b1 = 0x82 then (if b2 = 0x03 then Inr ''DER'' else Inr ''PKCS12'')
      else Inl ''unable to guess file format'')"
  using assms(1) Peek_4 [OF assms(2)]
  unfolding formatForFile_def Let_def
  by (simp only: Uint32_sequence_tag Uint32_third_byte Uint32_CECECECE Uint32_FEEDFEED
        Uint32_2D2D2D2D Uint32_434F4E4E option.case sum.case if_True if_False simp_thms)

theorem formatForFile_magic_witness:
  "fileExtToFormat (ToLower demo_library (Ext ''chain.bin'')) = None \<and>
   formatForFile demo_library
     \<lparr>content = [0x30, 0x82, 0x03, 0x9F, 0x30, 0x82], failure = None, reads = []\<rparr>
     ''chain.bin'' '''' = Inr ''DER''"
  using formatForFile_magic [where lib = demo_library and filename = "''chain.bin''"
      and reader = "\<lparr>content = [0x30, 0x82, 0x03, 0x9F, 0x30, 0x82], failure = None,
                      reads = []\<rparr>"
      and ?b0.0 = "0x30" and ?b1.0 = "0x82" and ?b2.0 = "0x03" and ?b3.0 = "0x9F"]
  by (simp add: fileExtToFormat_def ToLower_def isASCII_def Ext_def lower_char_def
      char_of_eq_iff)

text \<open>
  C2 as stated asks for DER when the fourth byte is \<open>03\<close>. The input \<open>30 82 00 03\<close>
  has that shape and resolves to PKCS12: the code tests the third byte.
\<close>

theorem formatForFile_fourth_byte_counterexample:
  "formatForFile demo_library
     \<lparr>content = [0x30, 0x82, 0x00, 0x03], failure = None, reads = []\<rparr> '''' ''''
     = Inr ''PKCS12'' \<and>
   formatForFile demo_library
     \<lparr>content = [0x30, 0x82, 0x00, 0x03], failure = None, reads = []\<rparr> '''' ''''
     \<noteq> Inr ''DER''"
  by (simp add: formatForFile_def fileExtToFormat_def ToLower_def isASCII_def Ext_def Peek_def
      Uint32_def)

text \<open>
  C5. A format hint that is not empty is returned as it is, whatever the file name and
  the input are. With no hint, an extension of the table decides. In both cases the
  input is not consulted: any two inputs give the same result. A file whose lowercased
  extension is \<open>.pem\<close> resolves to PEM whatever its bytes are, DER-looking ones
  included.
\<close>

theorem formatForFile_precedence:
  "(format \<noteq> '''' \<longrightarrow> formatForFile lib reader filename format = Inr format) \<and>
   (fileExtToFormat (ToLower lib (Ext filename)) = Some guess \<longrightarrow>
      formatForFile lib reader filename '''' = Inr guess) \<and>
   (format \<noteq> '''' \<or> fileExtToFormat (ToLower lib (Ext filename)) \<noteq> None \<longrightarrow>
      formatForFile lib reader filename format = formatForFile lib reader' filename format) \<and>
   (ToLower lib (Ext filename) = ''.pem'' \<longrightarrow> formatForFile lib reader filename '''' = Inr ''PEM'')"
  by (auto simp: formatForFile_def fileExtToFormat_def)

theorem formatForFile_precedence_witness:
  "ToLower demo_library (Ext ''server.PEM'') = ''.pem'' \<and>
   fileExtToFormat (ToLower demo_library (Ext ''server.PEM'')) = Some ''PEM'' \<and>
   formatForFile demo_library
     \<lparr>content = [0x30, 0x82, 0x03, 0x9F], failure = None, reads = []\<rparr> ''server.PEM'' ''''
     = Inr ''PEM'' \<and>
   formatForFile demo_library
     \<lparr>content = [0x30, 0x82, 0x03, 0x9F], failure = None, reads = []\<rparr> ''server.PEM'' ''JCEKS''
     = Inr ''JCEKS''"
  using formatForFile_precedence [where lib = demo_library and format = "''JCEKS''"
      and filename = "''server.PEM''" and reader' = demo_empty
      and guess = "''PEM''"
      and reader = "\<lparr>content = [0x30, 0x82, 0x03, 0x9F], failure = None, reads = []\<rparr>"]
  by (simp add: fileExtToFormat_def ToLower_def isASCII_def Ext_def lower_char_def
      char_of_eq_iff)

text \<open>
  The extension is compared in the lower case \<^verbatim>\<open>strings.ToLower\<close> gives it, which is
  that of package \<^verbatim>\<open>unicode\<close> for a name with bytes outside ASCII: with a library
  that lowers the Kelvin sign to \<^verbatim>\<open>k\<close>, a name that ends in \<^verbatim>\<open>.j\<close>, the Kelvin
  sign and \<^verbatim>\<open>s\<close> has an extension of the table, and the bytes are not looked at.
\<close>

lemma kelvin_extension:
  "ToLower demo_library (Ext demo_kelvin_name) = ''.jks'' \<and>
   formatForFile demo_library demo_der demo_kelvin_name '''' = Inr ''JCEKS'' \<and>
   formatForFile demo_library demo_empty demo_kelvin_name '''' = Inr ''JCEKS''"
proof -
  have ext: "Ext demo_kelvin_name = ''.j'' @ [CHR 0xE2, CHR 0x84, CHR 0xAA] @ ''s''"
    by (simp add: Ext_def demo_kelvin_name_def)
  have "ToLower demo_library (Ext demo_kelvin_name) = ''.jks''"
    unfolding ext
    by (simp add: ToLower_def isASCII_def demo_library_def lower_char_def char_of_eq_iff)
  then show ?thesis
    by (simp add: formatForFile_def fileExtToFormat_def)
qed

subsection \<open>mergeHeaders\<close>

lemma lookup_fold_update:
  "distinct (map fst kvs) \<Longrightarrow>
   DAList.lookup (fold (\<lambda>(k, v). DAList.update k v) kvs h) = DAList.lookup h ++ map_of kvs"
proof (induction kvs arbitrary: h)
  case Nil
  show ?case by simp
next
  case (Cons kv kvs)
  obtain k v where kv: "kv = (k, v)"
    by (cases kv)
  from Cons.prems kv have fresh: "map_of kvs k = None" and rest: "distinct (map fst kvs)"
    by (auto simp: map_of_eq_None_iff)
  have "DAList.lookup (fold (\<lambda>(k, v). DAList.update k v) (kv # kvs) h)
      = DAList.lookup (DAList.update k v h) ++ map_of kvs"
    using Cons.IH [OF rest] kv by simp
  also have "\<dots> = DAList.lookup h ++ map_of (kv # kvs)"
    using fresh kv
    by (auto simp: fun_eq_iff map_add_def lookup_update split: option.splits)
  finally show ?case .
qed

lemma lookup_range_store:
  "DAList.lookup (range_store m headers) = DAList.lookup headers ++ DAList.lookup m"
proof -
  have "DAList.lookup (fold (\<lambda>(k, v). DAList.update k v) (DAList.impl_of m) headers)
      = DAList.lookup headers ++ map_of (DAList.impl_of m)"
    by (rule lookup_fold_update) simp
  also have "map_of (DAList.impl_of m) = DAList.lookup m"
    by (simp add: lookup.rep_eq)
  finally show ?thesis
    unfolding range_store_def .
qed

lemma lookup_mergeHeaders:
  "DAList.lookup (mergeHeaders baseHeaders extraHeaders)
     = DAList.lookup baseHeaders ++ DAList.lookup extraHeaders"
  unfolding mergeHeaders_def
  by (simp add: lookup_range_store fun_eq_iff map_add_def split: option.splits)

lemma lookup_name_entry: "DAList.lookup (name_entry alias) = [nameHeader \<mapsto> alias]"
  by (simp add: name_entry_def fun_eq_iff lookup_update)

lemma fold_store_at:
  "headers < length s \<Longrightarrow>
   fold (\<lambda>(k, v) s. s[headers := DAList.update k v (s ! headers)]) kvs s
     = s[headers := fold (\<lambda>(k, v). DAList.update k v) kvs (s ! headers)]"
  by (induction kvs arbitrary: s) (auto simp: case_prod_beta)

lemma range_store_in_eq:
  "headers < length store \<Longrightarrow> m < length store \<Longrightarrow>
   range_store_in store m headers
     = store[headers := range_store (store ! m) (store ! headers)]"
  by (simp add: range_store_in_def range_store_def fold_store_at)

lemma mergeHeaders_in_eq:
  assumes "b < length store" and "e < length store"
  shows "mergeHeaders_in store b e = (length store, store @ [mergeHeaders (store ! b) (store ! e)])"
proof -
  let ?s0 = "store @ [DAList.empty]"
  have s1: "range_store_in ?s0 b (length store)
      = store @ [range_store (store ! b) DAList.empty]"
    using assms(1) by (simp add: range_store_in_eq nth_append)
  have "range_store_in (store @ [range_store (store ! b) DAList.empty]) e (length store)
      = store @ [mergeHeaders (store ! b) (store ! e)]"
    using assms(2) by (simp add: range_store_in_eq nth_append mergeHeaders_def)
  with s1 show ?thesis
    by (simp add: mergeHeaders_in_def Let_def)
qed

text \<open>
  C6. The keys of the merged map are the keys of \<open>base\<close> and of \<open>extra\<close>; a key of
  \<open>extra\<close> has the value \<open>extra\<close> gives it, any other key the value it has in
  \<open>base\<close>. The result is a function of the two maps alone: lists \<open>base'\<close> and
  \<open>extra'\<close> that hold the same entries in another order, as another run of
  \<^verbatim>\<open>range\<close> would visit them, give the same map. On a store of maps, the call writes
  to the map it allocates and to no other, whether its two arguments are the same map
  or not (\<open>mergeHeaders_in\<close>).
\<close>

theorem mergeHeaders_union_extra_wins:
  "dom (DAList.lookup (mergeHeaders base extra))
     = dom (DAList.lookup base) \<union> dom (DAList.lookup extra) \<and>
   (DAList.lookup extra k = Some v \<longrightarrow> DAList.lookup (mergeHeaders base extra) k = Some v) \<and>
   (DAList.lookup extra k = None \<longrightarrow>
      DAList.lookup (mergeHeaders base extra) k = DAList.lookup base k) \<and>
   (DAList.lookup base' = DAList.lookup base \<and> DAList.lookup extra' = DAList.lookup extra \<longrightarrow>
      DAList.lookup (mergeHeaders base' extra') = DAList.lookup (mergeHeaders base extra)) \<and>
   (b < length store \<and> e < length store \<longrightarrow>
      fst (mergeHeaders_in store b e) = length store \<and>
      take (length store) (snd (mergeHeaders_in store b e)) = store \<and>
      snd (mergeHeaders_in store b e) ! length store = mergeHeaders (store ! b) (store ! e))"
proof (intro conjI impI)
  show "dom (DAList.lookup (mergeHeaders base extra))
      = dom (DAList.lookup base) \<union> dom (DAList.lookup extra)"
    by (auto simp: lookup_mergeHeaders)
  show "DAList.lookup (mergeHeaders base extra) k = Some v" if "DAList.lookup extra k = Some v"
    using that by (simp add: lookup_mergeHeaders map_add_def)
  show "DAList.lookup (mergeHeaders base extra) k = DAList.lookup base k"
    if "DAList.lookup extra k = None"
    using that by (simp add: lookup_mergeHeaders map_add_def)
  show "DAList.lookup (mergeHeaders base' extra') = DAList.lookup (mergeHeaders base extra)"
    if "DAList.lookup base' = DAList.lookup base \<and> DAList.lookup extra' = DAList.lookup extra"
    using that by (simp add: lookup_mergeHeaders)
next
  assume "b < length store \<and> e < length store"
  then show "fst (mergeHeaders_in store b e) = length store"
    and "take (length store) (snd (mergeHeaders_in store b e)) = store"
    and "snd (mergeHeaders_in store b e) ! length store = mergeHeaders (store ! b) (store ! e)"
    by (simp_all add: mergeHeaders_in_eq)
qed

theorem mergeHeaders_union_extra_wins_witness:
  "DAList.lookup demo_extra ''originFile'' = Some ''new.pem'' \<and>
   DAList.lookup (mergeHeaders demo_base demo_extra) ''originFile'' = Some ''new.pem'' \<and>
   DAList.lookup demo_extra ''Proc-Type'' = None \<and>
   DAList.lookup (mergeHeaders demo_base demo_extra) ''Proc-Type'' = Some ''4,ENCRYPTED'' \<and>
   DAList.lookup (mergeHeaders demo_base' demo_extra)
     = DAList.lookup (mergeHeaders demo_base demo_extra) \<and>
   fst (mergeHeaders_in [demo_base, demo_extra] 0 1) = 2 \<and>
   take 2 (snd (mergeHeaders_in [demo_base, demo_extra] 0 1)) = [demo_base, demo_extra] \<and>
   snd (mergeHeaders_in [demo_base, demo_extra] 0 1) ! 2 = mergeHeaders demo_base demo_extra"
proof -
  have same: "DAList.lookup demo_base' = DAList.lookup demo_base"
    by (auto simp: demo_base_def demo_base'_def fun_eq_iff lookup_update)
  have new: "DAList.lookup demo_extra ''originFile'' = Some ''new.pem''"
    and none: "DAList.lookup demo_extra ''Proc-Type'' = None"
    by (simp_all add: demo_extra_def lookup_update)
  have old: "DAList.lookup demo_base ''Proc-Type'' = Some ''4,ENCRYPTED''"
    by (simp add: demo_base_def lookup_update)
  note at_origin = mergeHeaders_union_extra_wins [where base = demo_base and extra = demo_extra
      and k = "''originFile''" and v = "''new.pem''" and base' = demo_base'
      and extra' = demo_extra and store = "[demo_base, demo_extra]" and b = 0 and e = 1]
  note at_proc = mergeHeaders_union_extra_wins [where base = demo_base and extra = demo_extra
      and k = "''Proc-Type''" and v = "''x''" and base' = demo_base and extra' = demo_extra
      and store = "[]" and b = 0 and e = 0]
  from at_origin new have 1: "DAList.lookup (mergeHeaders demo_base demo_extra) ''originFile''
      = Some ''new.pem''"
    by blast
  from at_proc none old have 2: "DAList.lookup (mergeHeaders demo_base demo_extra) ''Proc-Type''
      = Some ''4,ENCRYPTED''"
    by metis
  from at_origin same have 3: "DAList.lookup (mergeHeaders demo_base' demo_extra)
      = DAList.lookup (mergeHeaders demo_base demo_extra)"
    by blast
  from at_origin have 4: "fst (mergeHeaders_in [demo_base, demo_extra] 0 1) = 2 \<and>
      take 2 (snd (mergeHeaders_in [demo_base, demo_extra] 0 1)) = [demo_base, demo_extra] \<and>
      snd (mergeHeaders_in [demo_base, demo_extra] 0 1) ! 2 = mergeHeaders demo_base demo_extra"
    by (simp add: numeral_2_eq_2)
  from new none 1 2 3 4 show ?thesis
    by blast
qed

subsection \<open>keyToPem\<close>

text \<open>
  C8, as amended. An RSA key gives a block tagged \<^verbatim>\<open>RSA PRIVATE KEY\<close> that holds its
  PKCS#1 marshaling. An elliptic-curve key gives a block tagged \<^verbatim>\<open>EC PRIVATE KEY\<close>
  that holds its SEC1 marshaling when \<^verbatim>\<open>x509.MarshalECPrivateKey\<close> succeeds, and the
  error \<^verbatim>\<open>error marshaling key\<close> with no block when it fails. A key of any other type
  gives the error \<^verbatim>\<open>unknown key type\<close> with the name of the type, and no block.
\<close>

theorem keyToPem_variants:
  "keyToPem lib (RSA rsa) headers
     = Inr \<lparr>Type = ''RSA PRIVATE KEY'', Headers = headers,
            Bytes = x509_MarshalPKCS1PrivateKey lib rsa\<rparr> \<and>
   (x509_MarshalECPrivateKey lib ec = Inr raw \<longrightarrow>
      keyToPem lib (ECDSA ec) headers
        = Inr \<lparr>Type = ''EC PRIVATE KEY'', Headers = headers, Bytes = raw\<rparr>) \<and>
   (x509_MarshalECPrivateKey lib ec = Inl err \<longrightarrow>
      keyToPem lib (ECDSA ec) headers = Inl (''error marshaling key: *ecdsa.PrivateKey'' @ LF)) \<and>
   keyToPem lib (OtherKey name) headers = Inl (''unknown key type: '' @ name @ LF)"
  by (simp add: keyToPem_def)

theorem keyToPem_variants_witness:
  "x509_MarshalECPrivateKey demo_library demo_ec_key = Inr [0x30, 0x77] \<and>
   keyToPem demo_library (ECDSA demo_ec_key) demo_extra
     = Inr \<lparr>Type = ''EC PRIVATE KEY'', Headers = demo_extra, Bytes = [0x30, 0x77]\<rparr> \<and>
   x509_MarshalECPrivateKey demo_library demo_koblitz_key = Inl ''x509: unknown elliptic curve'' \<and>
   keyToPem demo_library (ECDSA demo_koblitz_key) demo_extra
     = Inl (''error marshaling key: *ecdsa.PrivateKey'' @ LF) \<and>
   keyToPem demo_library (RSA demo_rsa_key) demo_extra
     = Inr \<lparr>Type = ''RSA PRIVATE KEY'', Headers = demo_extra, Bytes = [0x30, 0x82, 0x01, 0x3B]\<rparr> \<and>
   keyToPem demo_library (OtherKey ''*dsa.PrivateKey'') demo_extra
     = Inl (''unknown key type: *dsa.PrivateKey'' @ LF)"
  using keyToPem_variants [where lib = demo_library and rsa = demo_rsa_key and ec = demo_ec_key
      and raw = "[0x30, 0x77]" and headers = demo_extra and name = "''*dsa.PrivateKey''"]
    keyToPem_variants [where lib = demo_library and rsa = demo_rsa_key
      and ec = demo_koblitz_key and err = "''x509: unknown elliptic curve''"
      and headers = demo_extra and name = "''*dsa.PrivateKey''"]
  by (simp add: demo_library_def demo_ec_key_def demo_koblitz_key_def)

text \<open>
  C8 as stated promises a block for every elliptic-curve key. For a key on a curve that
  \<^verbatim>\<open>x509.MarshalECPrivateKey\<close> does not know, \<open>keyToPem\<close> returns an error.
\<close>

theorem keyToPem_unknown_curve_counterexample:
  "keyToPem demo_library (ECDSA demo_koblitz_key) DAList.empty
     = Inl (''error marshaling key: *ecdsa.PrivateKey'' @ LF)"
  by (simp add: keyToPem_def demo_library_def demo_koblitz_key_def)

subsection \<open>The JCEKS keystore\<close>

lemma jceks_certs_complete:
  "\<forall>alias\<in>set aliases. GetCert keyStore alias \<noteq> None \<Longrightarrow>
   jceks_certs keyStore headers callback aliases w
     = (fold (emit callback) (concat (map (cert_alias_blocks keyStore headers) aliases)) w, None)"
  by (induction aliases arbitrary: w) (auto simp: cert_alias_blocks_def)

lemma jceks_keys_complete:
  "\<forall>alias\<in>set aliases. \<exists>key certs block.
      GetPrivateKeyAndCerts keyStore alias (password alias) = Inr (key, certs) \<and>
      keyToPem lib key (mergeHeaders headers (name_entry alias)) = Inr block \<Longrightarrow>
   jceks_keys lib keyStore headers password callback aliases w
     = (fold (emit callback)
          (concat (map (key_alias_blocks lib keyStore headers password) aliases)) w, None)"
proof (induction aliases arbitrary: w)
  case Nil
  show ?case by simp
next
  case (Cons a aliases)
  from Cons.prems obtain key certs block
    where got: "GetPrivateKeyAndCerts keyStore a (password a) = Inr (key, certs)"
      and pem: "keyToPem lib key (mergeHeaders headers (name_entry a)) = Inr block"
    by auto
  from Cons.prems have rest: "\<forall>alias\<in>set aliases. \<exists>key certs block.
      GetPrivateKeyAndCerts keyStore alias (password alias) = Inr (key, certs) \<and>
      keyToPem lib key (mergeHeaders headers (name_entry alias)) = Inr block"
    by simp
  show ?case
    using got pem Cons.IH [OF rest]
    by (simp add: key_alias_blocks_def fold_map comp_def)
qed

lemma friendlyName_of_alias:
  "DAList.lookup (mergeHeaders headers (name_entry alias)) nameHeader = Some alias"
  by (simp add: lookup_mergeHeaders lookup_name_entry)

lemma keyToPem_Headers: "keyToPem lib key headers = Inr block \<Longrightarrow> Headers block = headers"
  by (auto simp: keyToPem_def split: PrivateKey.splits sum.splits)

lemma keyToPem_Type:
  "keyToPem lib key headers = Inr block \<Longrightarrow>
   Type block = ''RSA PRIVATE KEY'' \<or> Type block = ''EC PRIVATE KEY''"
  by (auto simp: keyToPem_def split: PrivateKey.splits sum.splits)

lemma cert_alias_blocks_name:
  "block \<in> set (cert_alias_blocks keyStore headers alias) \<Longrightarrow>
   DAList.lookup (Headers block) nameHeader = Some alias \<and> Type block = ''CERTIFICATE''"
  by (auto simp: cert_alias_blocks_def EncodeX509ToPEM_def friendlyName_of_alias
      split: option.splits)

lemma key_alias_blocks_name:
  "DAList.lookup (Headers block) nameHeader = Some alias"
  if "block \<in> set (key_alias_blocks lib keyStore headers password alias)"
proof (cases "GetPrivateKeyAndCerts keyStore alias (password alias)")
  case (Inl err)
  with that show ?thesis
    by (simp add: key_alias_blocks_def)
next
  case (Inr found)
  obtain key certs where found: "found = (key, certs)"
    by (cases found)
  show ?thesis
  proof (cases "keyToPem lib key (mergeHeaders headers (name_entry alias))")
    case (Inl err)
    with that Inr found show ?thesis
      by (simp add: key_alias_blocks_def)
  next
    case (Inr keyBlock)
    from keyToPem_Headers [OF Inr] have "Headers keyBlock = mergeHeaders headers (name_entry alias)" .
    with that \<open>GetPrivateKeyAndCerts keyStore alias (password alias) = Inr found\<close> found Inr
    show ?thesis
      by (auto simp: key_alias_blocks_def EncodeX509ToPEM_def friendlyName_of_alias)
  qed
qed

lemma readCertsFromStream_JCEKS:
  assumes "jceks_LoadFromReader lib reader (password '''') = Inr keyStore"
    and "\<forall>alias\<in>set (ListCerts keyStore). GetCert keyStore alias \<noteq> None"
    and "\<forall>alias\<in>set (ListPrivateKeys keyStore). \<exists>key certs block.
      GetPrivateKeyAndCerts keyStore alias (password alias) = Inr (key, certs) \<and>
      keyToPem lib key (mergeHeaders (origin_headers filename) (name_entry alias)) = Inr block"
  shows "readCertsFromStream lib reader filename ''JCEKS'' password callback w
     = (fold (emit callback)
          (concat (map (cert_alias_blocks keyStore (origin_headers filename))
                     (ListCerts keyStore)) @
           concat (map (key_alias_blocks lib keyStore (origin_headers filename) password)
                     (ListPrivateKeys keyStore))) w,
        unknown_file_type ''JCEKS'')"
  by (simp add: readCertsFromStream_def Let_def assms(1)
      jceks_certs_complete [OF assms(2)] jceks_keys_complete [OF assms(3)])

text \<open>
  C4. When the keystore opens, every certificate alias has its certificate and every
  private-key alias gives its key, its chain and a block for the key, the consumer
  receives the blocks of the certificate aliases, alias by alias, and then the blocks of
  the private-key aliases, alias by alias; for a private-key alias, the block of the key
  (tagged \<^verbatim>\<open>RSA PRIVATE KEY\<close> or \<^verbatim>\<open>EC PRIVATE KEY\<close>) comes first and the certificates
  of its chain follow in their order; every block of an alias has that alias as
  \<^verbatim>\<open>friendlyName\<close>. In particular, a keystore with no certificate alias and one
  private-key alias with a chain of two certificates gives the key block and then the
  two certificates, each with the alias as \<^verbatim>\<open>friendlyName\<close>, and nothing else.
\<close>

theorem jceks_emission_order:
  assumes "jceks_LoadFromReader lib reader (password '''') = Inr keyStore"
    and "\<forall>alias\<in>set (ListCerts keyStore). GetCert keyStore alias \<noteq> None"
    and "\<forall>alias\<in>set (ListPrivateKeys keyStore). \<exists>key certs block.
      GetPrivateKeyAndCerts keyStore alias (password alias) = Inr (key, certs) \<and>
      keyToPem lib key (mergeHeaders (origin_headers filename) (name_entry alias)) = Inr block"
  shows "readCertsFromStream lib reader filename ''JCEKS'' password callback w
       = (fold (emit callback)
            (concat (map (cert_alias_blocks keyStore (origin_headers filename))
                       (ListCerts keyStore)) @
             concat (map (key_alias_blocks lib keyStore (origin_headers filename) password)
                       (ListPrivateKeys keyStore))) w,
          unknown_file_type ''JCEKS'') \<and>
     (\<forall>alias\<in>set (ListCerts keyStore).
        \<forall>block\<in>set (cert_alias_blocks keyStore (origin_headers filename) alias).
          DAList.lookup (Headers block) nameHeader = Some alias \<and> Type block = ''CERTIFICATE'') \<and>
     (\<forall>alias\<in>set (ListPrivateKeys keyStore). \<exists>key certs block.
        GetPrivateKeyAndCerts keyStore alias (password alias) = Inr (key, certs) \<and>
        (Type block = ''RSA PRIVATE KEY'' \<or> Type block = ''EC PRIVATE KEY'') \<and>
        key_alias_blocks lib keyStore (origin_headers filename) password alias
          = block # map (\<lambda>cert. EncodeX509ToPEM cert (Headers block)) certs \<and>
        DAList.lookup (Headers block) nameHeader = Some alias) \<and>
     (ListCerts keyStore = [] \<and> ListPrivateKeys keyStore = [name] \<and>
      GetPrivateKeyAndCerts keyStore name (password name) = Inr (key, [cert1, cert2]) \<longrightarrow>
        (\<exists>block.
           readCertsFromStream lib reader filename ''JCEKS'' password callback w
             = (emit callback (EncodeX509ToPEM cert2 (Headers block))
                  (emit callback (EncodeX509ToPEM cert1 (Headers block))
                     (emit callback block w)),
                unknown_file_type ''JCEKS'') \<and>
           (Type block = ''RSA PRIVATE KEY'' \<or> Type block = ''EC PRIVATE KEY'') \<and>
           DAList.lookup (Headers block) nameHeader = Some name))"
proof (intro conjI ballI impI)
  show "readCertsFromStream lib reader filename ''JCEKS'' password callback w
       = (fold (emit callback)
            (concat (map (cert_alias_blocks keyStore (origin_headers filename))
                       (ListCerts keyStore)) @
             concat (map (key_alias_blocks lib keyStore (origin_headers filename) password)
                       (ListPrivateKeys keyStore))) w,
          unknown_file_type ''JCEKS'')"
    using assms by (rule readCertsFromStream_JCEKS)
next
  fix a block
  assume "block \<in> set (cert_alias_blocks keyStore (origin_headers filename) a)"
  then show "DAList.lookup (Headers block) nameHeader = Some a"
    and "Type block = ''CERTIFICATE''"
    by (simp_all add: cert_alias_blocks_name)
next
  fix a
  assume "a \<in> set (ListPrivateKeys keyStore)"
  with assms(3) obtain key certs block
    where got: "GetPrivateKeyAndCerts keyStore a (password a) = Inr (key, certs)"
      and pem: "keyToPem lib key (mergeHeaders (origin_headers filename) (name_entry a))
                  = Inr block"
    by blast
  have blocks: "key_alias_blocks lib keyStore (origin_headers filename) password a
      = block # map (\<lambda>cert. EncodeX509ToPEM cert (Headers block)) certs"
    using got pem keyToPem_Headers [OF pem] by (simp add: key_alias_blocks_def)
  have named: "DAList.lookup (Headers block) nameHeader = Some a"
    using keyToPem_Headers [OF pem] by (simp add: friendlyName_of_alias)
  from got keyToPem_Type [OF pem] blocks named show "\<exists>key certs block.
        GetPrivateKeyAndCerts keyStore a (password a) = Inr (key, certs) \<and>
        (Type block = ''RSA PRIVATE KEY'' \<or> Type block = ''EC PRIVATE KEY'') \<and>
        key_alias_blocks lib keyStore (origin_headers filename) password a
          = block # map (\<lambda>cert. EncodeX509ToPEM cert (Headers block)) certs \<and>
        DAList.lookup (Headers block) nameHeader = Some a"
    by (intro exI [of _ key] exI [of _ certs] exI [of _ block] conjI)
next
  assume one: "ListCerts keyStore = [] \<and> ListPrivateKeys keyStore = [name] \<and>
      GetPrivateKeyAndCerts keyStore name (password name) = Inr (key, [cert1, cert2])"
  then have no_certs: "ListCerts keyStore = []"
    and one_key: "ListPrivateKeys keyStore = [name]"
    and got: "GetPrivateKeyAndCerts keyStore name (password name) = Inr (key, [cert1, cert2])"
    by simp_all
  from one_key have "name \<in> set (ListPrivateKeys keyStore)"
    by simp
  with assms(3) obtain key' certs' block
    where "GetPrivateKeyAndCerts keyStore name (password name) = Inr (key', certs')"
      and "keyToPem lib key' (mergeHeaders (origin_headers filename) (name_entry name))
             = Inr block"
    by blast
  with got have pem:
    "keyToPem lib key (mergeHeaders (origin_headers filename) (name_entry name)) = Inr block"
    by simp
  have blocks: "key_alias_blocks lib keyStore (origin_headers filename) password name
      = [block, EncodeX509ToPEM cert1 (Headers block), EncodeX509ToPEM cert2 (Headers block)]"
    using got pem keyToPem_Headers [OF pem] by (simp add: key_alias_blocks_def)
  have run: "readCertsFromStream lib reader filename ''JCEKS'' password callback w
      = (emit callback (EncodeX509ToPEM cert2 (Headers block))
           (emit callback (EncodeX509ToPEM cert1 (Headers block)) (emit callback block w)),
         unknown_file_type ''JCEKS'')"
    by (simp add: readCertsFromStream_JCEKS [OF assms] no_certs one_key blocks)
  have named: "DAList.lookup (Headers block) nameHeader = Some name"
    using keyToPem_Headers [OF pem] by (simp add: friendlyName_of_alias)
  from run named keyToPem_Type [OF pem] show "\<exists>block.
           readCertsFromStream lib reader filename ''JCEKS'' password callback w
             = (emit callback (EncodeX509ToPEM cert2 (Headers block))
                  (emit callback (EncodeX509ToPEM cert1 (Headers block))
                     (emit callback block w)),
                unknown_file_type ''JCEKS'') \<and>
           (Type block = ''RSA PRIVATE KEY'' \<or> Type block = ''EC PRIVATE KEY'') \<and>
           DAList.lookup (Headers block) nameHeader = Some name"
    by (intro exI [of _ block] conjI)
qed

theorem jceks_emission_order_witness:
  "consumer (fst (readCertsFromStream demo_library demo_jceks_stream ''store.jceks'' ''JCEKS''
                    demo_password collect quiet))
     = [EncodeX509ToPEM demo_root
          (mergeHeaders (origin_headers ''store.jceks'') (name_entry ''root-ca'')),
        \<lparr>Type = ''RSA PRIVATE KEY'',
         Headers = mergeHeaders (origin_headers ''store.jceks'') (name_entry ''server''),
         Bytes = [0x30, 0x82, 0x01, 0x3B]\<rparr>,
        EncodeX509ToPEM demo_leaf
          (mergeHeaders (origin_headers ''store.jceks'') (name_entry ''server'')),
        EncodeX509ToPEM demo_intermediate
          (mergeHeaders (origin_headers ''store.jceks'') (name_entry ''server''))] \<and>
   ListCerts demo_key_only = [] \<and>
   ListPrivateKeys demo_key_only = [''server''] \<and>
   consumer (fst (readCertsFromStream demo_key_only_library demo_jceks_stream '''' ''JCEKS''
                    demo_password collect quiet))
     = [\<lparr>Type = ''RSA PRIVATE KEY'',
         Headers = mergeHeaders DAList.empty (name_entry ''server''),
         Bytes = [0x30, 0x82, 0x01, 0x3B]\<rparr>,
        EncodeX509ToPEM demo_leaf (mergeHeaders DAList.empty (name_entry ''server'')),
        EncodeX509ToPEM demo_intermediate (mergeHeaders DAList.empty (name_entry ''server''))] \<and>
   DAList.lookup (mergeHeaders DAList.empty (name_entry ''server'')) nameHeader = Some ''server''"
proof -
  have opens: "jceks_LoadFromReader demo_library demo_jceks_stream (demo_password '''')
      = Inr demo_keyStore"
    by (simp add: demo_library_def demo_password_def)
  have certs: "\<forall>alias\<in>set (ListCerts demo_keyStore). GetCert demo_keyStore alias \<noteq> None"
    by (simp add: demo_keyStore_def)
  have keys: "\<forall>alias\<in>set (ListPrivateKeys demo_keyStore). \<exists>key certs block.
      GetPrivateKeyAndCerts demo_keyStore alias (demo_password alias) = Inr (key, certs) \<and>
      keyToPem demo_library key (mergeHeaders (origin_headers ''store.jceks'') (name_entry alias))
        = Inr block"
    by (simp add: demo_keyStore_def demo_password_def keyToPem_def)
  note full = jceks_emission_order [OF opens certs keys, where callback = collect and w = quiet
      and name = "''server''" and key = "RSA demo_rsa_key" and ?cert1.0 = demo_leaf
      and ?cert2.0 = demo_intermediate]
  have blocks: "concat (map (cert_alias_blocks demo_keyStore (origin_headers ''store.jceks''))
                     (ListCerts demo_keyStore)) @
      concat (map (key_alias_blocks demo_library demo_keyStore (origin_headers ''store.jceks'')
                     demo_password) (ListPrivateKeys demo_keyStore))
      = [EncodeX509ToPEM demo_root
           (mergeHeaders (origin_headers ''store.jceks'') (name_entry ''root-ca'')),
         \<lparr>Type = ''RSA PRIVATE KEY'',
          Headers = mergeHeaders (origin_headers ''store.jceks'') (name_entry ''server''),
          Bytes = [0x30, 0x82, 0x01, 0x3B]\<rparr>,
         EncodeX509ToPEM demo_leaf
           (mergeHeaders (origin_headers ''store.jceks'') (name_entry ''server'')),
         EncodeX509ToPEM demo_intermediate
           (mergeHeaders (origin_headers ''store.jceks'') (name_entry ''server''))]"
    by (simp add: cert_alias_blocks_def key_alias_blocks_def keyToPem_def demo_keyStore_def
        demo_password_def demo_library_def)
  from full [THEN conjunct1] have 1: "consumer (fst (readCertsFromStream demo_library
        demo_jceks_stream ''store.jceks'' ''JCEKS'' demo_password collect quiet))
      = [EncodeX509ToPEM demo_root
           (mergeHeaders (origin_headers ''store.jceks'') (name_entry ''root-ca'')),
         \<lparr>Type = ''RSA PRIVATE KEY'',
          Headers = mergeHeaders (origin_headers ''store.jceks'') (name_entry ''server''),
          Bytes = [0x30, 0x82, 0x01, 0x3B]\<rparr>,
         EncodeX509ToPEM demo_leaf
           (mergeHeaders (origin_headers ''store.jceks'') (name_entry ''server'')),
         EncodeX509ToPEM demo_intermediate
           (mergeHeaders (origin_headers ''store.jceks'') (name_entry ''server''))]"
    unfolding blocks by (simp add: emit_def collect_def quiet_def)
  have opens': "jceks_LoadFromReader demo_key_only_library demo_jceks_stream (demo_password '''')
      = Inr demo_key_only"
    by (simp add: demo_key_only_library_def)
  have certs': "\<forall>alias\<in>set (ListCerts demo_key_only). GetCert demo_key_only alias \<noteq> None"
    by (simp add: demo_key_only_def)
  have pem: "keyToPem demo_key_only_library (RSA demo_rsa_key)
        (mergeHeaders (origin_headers '''') (name_entry ''server''))
      = Inr \<lparr>Type = ''RSA PRIVATE KEY'',
             Headers = mergeHeaders (origin_headers '''') (name_entry ''server''),
             Bytes = [0x30, 0x82, 0x01, 0x3B]\<rparr>"
    by (simp add: keyToPem_def demo_key_only_library_def demo_library_def)
  have shape: "ListCerts demo_key_only = [] \<and> ListPrivateKeys demo_key_only = [''server''] \<and>
      GetPrivateKeyAndCerts demo_key_only ''server'' (demo_password ''server'')
        = Inr (RSA demo_rsa_key, [demo_leaf, demo_intermediate])"
    by (simp add: demo_key_only_def demo_keyStore_def demo_password_def)
  have keys': "\<forall>alias\<in>set (ListPrivateKeys demo_key_only). \<exists>key certs block.
      GetPrivateKeyAndCerts demo_key_only alias (demo_password alias) = Inr (key, certs) \<and>
      keyToPem demo_key_only_library key (mergeHeaders (origin_headers '''') (name_entry alias))
        = Inr block"
    using shape pem by simp
  note key_only = jceks_emission_order [OF opens' certs' keys', where callback = collect
      and w = quiet and name = "''server''" and key = "RSA demo_rsa_key" and ?cert1.0 = demo_leaf
      and ?cert2.0 = demo_intermediate]
  from key_only shape obtain block
    where run: "readCertsFromStream demo_key_only_library demo_jceks_stream '''' ''JCEKS''
          demo_password collect quiet
        = (emit collect (EncodeX509ToPEM demo_intermediate (Headers block))
             (emit collect (EncodeX509ToPEM demo_leaf (Headers block)) (emit collect block quiet)),
           unknown_file_type ''JCEKS'')"
    by blast
  have blocks': "concat (map (cert_alias_blocks demo_key_only (origin_headers ''''))
                     (ListCerts demo_key_only)) @
      concat (map (key_alias_blocks demo_key_only_library demo_key_only (origin_headers '''')
                     demo_password) (ListPrivateKeys demo_key_only))
      = [\<lparr>Type = ''RSA PRIVATE KEY'',
          Headers = mergeHeaders DAList.empty (name_entry ''server''),
          Bytes = [0x30, 0x82, 0x01, 0x3B]\<rparr>,
         EncodeX509ToPEM demo_leaf (mergeHeaders DAList.empty (name_entry ''server'')),
         EncodeX509ToPEM demo_intermediate (mergeHeaders DAList.empty (name_entry ''server''))]"
    using shape pem by (simp add: key_alias_blocks_def origin_headers_def)
  from key_only [THEN conjunct1] have 2: "consumer (fst (readCertsFromStream
        demo_key_only_library demo_jceks_stream '''' ''JCEKS'' demo_password collect quiet))
      = [\<lparr>Type = ''RSA PRIVATE KEY'',
          Headers = mergeHeaders DAList.empty (name_entry ''server''),
          Bytes = [0x30, 0x82, 0x01, 0x3B]\<rparr>,
         EncodeX509ToPEM demo_leaf (mergeHeaders DAList.empty (name_entry ''server'')),
         EncodeX509ToPEM demo_intermediate (mergeHeaders DAList.empty (name_entry ''server''))]"
    unfolding blocks' by (simp add: emit_def collect_def quiet_def)
  have 3: "DAList.lookup (mergeHeaders DAList.empty (name_entry ''server'')) nameHeader
      = Some ''server''"
    by (rule friendlyName_of_alias)
  from 1 shape 2 3 show ?thesis
    by (intro conjI) simp_all
qed

subsection \<open>The readers, input by input\<close>

text \<open>
  A reader on a list \<open>pre @ post\<close> runs on \<open>pre\<close> and, when that returns
  \<^verbatim>\<open>nil\<close>, goes on with \<open>post\<close> in the world it has reached; any other end of
  \<open>pre\<close> is the end of the whole run.
\<close>

lemma ReadPEMFromFiles_append:
  "ReadPEMFromFiles lib (pre @ post) format password callback w =
     (case ReadPEMFromFiles lib pre format password callback w of
        (w', Returned None) \<Rightarrow> ReadPEMFromFiles lib post format password callback w'
      | stop \<Rightarrow> stop)"
  by (induction pre arbitrary: w) (auto split: sum.splits prod.splits outcome.splits)

lemma ReadPEM_append:
  "ReadPEM lib (pre @ post) format password callback w =
     (case ReadPEM lib pre format password callback w of
        (w', Returned None) \<Rightarrow> ReadPEM lib post format password callback w'
      | stop \<Rightarrow> stop)"
  by (induction pre arbitrary: w) (auto split: sum.splits prod.splits outcome.splits)

lemma ReadX509FromFiles_append:
  "ReadX509FromFiles lib (pre @ post) format password callback w =
     (case ReadX509FromFiles lib pre format password callback w of
        (w', Returned None) \<Rightarrow> ReadX509FromFiles lib post format password callback w'
      | stop \<Rightarrow> stop)"
  by (induction pre arbitrary: w) (auto split: sum.splits prod.splits outcome.splits)

lemma ReadX509_append:
  "ReadX509 lib (pre @ post) format password callback w =
     (case ReadX509 lib pre format password callback w of
        (w', Returned None) \<Rightarrow> ReadX509 lib post format password callback w'
      | stop \<Rightarrow> stop)"
  by (induction pre arbitrary: w) (auto split: sum.splits prod.splits outcome.splits)

lemma no_extension: "fileExtToFormat (ToLower lib (Ext '''')) = None"
  by (simp add: fileExtToFormat_def ToLower_def isASCII_def Ext_def)

lemma formatForFile_short:
  assumes "fileExtToFormat (ToLower lib (Ext filename)) = None" and "length (content reader) < 4"
  shows "formatForFile lib reader filename '''' =
     Inl (''unable to read file: '' @ (case failure reader of None \<Rightarrow> ''EOF'' | Some e \<Rightarrow> e) @ LF)"
  using assms by (simp add: formatForFile_def Peek_def)

subsection \<open>Inputs too short to guess from\<close>

text \<open>
  C9, as amended. Let an input hold fewer than four bytes, let the extension of its
  name, in the lower case \<^verbatim>\<open>strings.ToLower\<close> gives it, not be in the table, and let
  there be no format hint. Then \<open>Peek\<close> fails, \<open>formatForFile\<close>
  returns an error, with the name and without it, and each of the four readers, run on
  a list that holds the input at any place, ends as follows: if the inputs before it
  were all read, the reader returns its error \<^verbatim>\<open>unable to guess\<close> in the world those
  inputs left, so that no callback runs for the input or for any input after it; and if
  the reader ended before it reached the input, the run is the run on the inputs before
  it.
\<close>

theorem short_input_aborts:
  assumes "length (content (input f)) < 4"
    and "fileExtToFormat (ToLower lib (Ext (Name f))) = None"
  shows "(\<exists>err. Peek (input f) 4 = Inl err) \<and>
     (\<exists>err. formatForFile lib (input f) (Name f) '''' = Inl err) \<and>
     (\<exists>err. formatForFile lib (input f) '''' '''' = Inl err) \<and>
     ReadPEMFromFiles lib (pre @ f # post) '''' password callback w =
       (case ReadPEMFromFiles lib pre '''' password callback w of
          (w', Returned None) \<Rightarrow>
            (w', Returned (Some (''unable to guess file type (for file '' @ Name f @ '')'' @ LF)))
        | stop \<Rightarrow> stop) \<and>
     ReadPEM lib (map input pre @ input f # map input post) '''' password callback w =
       (case ReadPEM lib (map input pre) '''' password callback w of
          (w', Returned None) \<Rightarrow> (w', Returned (Some ''unable to guess format for input stream''))
        | stop \<Rightarrow> stop) \<and>
     ReadX509FromFiles lib (pre @ f # post) '''' password receive v =
       (case ReadX509FromFiles lib pre '''' password receive v of
          (v', Returned None) \<Rightarrow>
            (v', Returned (Some (''unable to guess file type (for file '' @ Name f @ '')'')))
        | stop \<Rightarrow> stop) \<and>
     ReadX509 lib (map input pre @ input f # map input post) '''' password receive v =
       (case ReadX509 lib (map input pre) '''' password receive v of
          (v', Returned None) \<Rightarrow> (v', Returned (Some ''unable to guess format for input stream''))
        | stop \<Rightarrow> stop)"
proof -
  note named = formatForFile_short [OF assms(2) assms(1)]
  note anonymous = formatForFile_short [OF no_extension assms(1)]
  have "\<exists>err. Peek (input f) 4 = Inl err"
    using assms(1) by (simp add: Peek_def)
  moreover have "ReadPEMFromFiles lib (pre @ f # post) '''' password callback w =
       (case ReadPEMFromFiles lib pre '''' password callback w of
          (w', Returned None) \<Rightarrow>
            (w', Returned (Some (''unable to guess file type (for file '' @ Name f @ '')'' @ LF)))
        | stop \<Rightarrow> stop)"
    by (simp add: ReadPEMFromFiles_append named split: prod.splits outcome.splits option.splits)
  moreover have "ReadPEM lib (map input pre @ input f # map input post) '''' password callback w =
       (case ReadPEM lib (map input pre) '''' password callback w of
          (w', Returned None) \<Rightarrow> (w', Returned (Some ''unable to guess format for input stream''))
        | stop \<Rightarrow> stop)"
    by (simp add: ReadPEM_append anonymous split: prod.splits outcome.splits option.splits)
  moreover have "ReadX509FromFiles lib (pre @ f # post) '''' password receive v =
       (case ReadX509FromFiles lib pre '''' password receive v of
          (v', Returned None) \<Rightarrow>
            (v', Returned (Some (''unable to guess file type (for file '' @ Name f @ '')'')))
        | stop \<Rightarrow> stop)"
    by (simp add: ReadX509FromFiles_append named split: prod.splits outcome.splits option.splits)
  moreover have "ReadX509 lib (map input pre @ input f # map input post) '''' password receive v =
       (case ReadX509 lib (map input pre) '''' password receive v of
          (v', Returned None) \<Rightarrow> (v', Returned (Some ''unable to guess format for input stream''))
        | stop \<Rightarrow> stop)"
    by (simp add: ReadX509_append anonymous split: prod.splits outcome.splits option.splits)
  ultimately show ?thesis
    using named anonymous by simp
qed

theorem short_input_aborts_witness:
  "length (content (input demo_empty_file)) < 4 \<and>
   fileExtToFormat (ToLower demo_library (Ext (Name demo_empty_file))) = None \<and>
   ReadPEMFromFiles demo_library [demo_der_file, demo_empty_file, demo_der_file] ''''
       demo_password collect quiet
     = (\<lparr>consumer = [EncodeX509ToPEM \<lparr>cert_Raw = content demo_der\<rparr> (origin_headers ''chain.der'')],
         stderr = []\<rparr>,
        Returned (Some (''unable to guess file type (for file notes)'' @ LF))) \<and>
   ReadX509 demo_library [demo_der, demo_empty, demo_der] '''' demo_password collect quiet
     = (\<lparr>consumer = [\<lparr>cert_Raw = content demo_der\<rparr>], stderr = []\<rparr>,
        Returned (Some ''unable to guess format for input stream''))"
proof -
  have short: "length (content (input demo_empty_file)) < 4"
    by (simp add: demo_empty_file_def demo_empty_def)
  have ext: "fileExtToFormat (ToLower demo_library (Ext (Name demo_empty_file))) = None"
    by (simp add: demo_empty_file_def fileExtToFormat_def ToLower_def isASCII_def Ext_def
        lower_char_def char_of_eq_iff)
  have der: "formatForFile demo_library demo_der ''chain.der'' '''' = Inr ''DER''"
    "formatForFile demo_library demo_der '''' '''' = Inr ''DER''"
    by (simp_all add: formatForFile_def fileExtToFormat_def ToLower_def isASCII_def Ext_def
        lower_char_def char_of_eq_iff Peek_def Uint32_def demo_der_def)
  have parsed: "x509_ParseCertificates demo_library (content demo_der)
        = Inr [\<lparr>cert_Raw = content demo_der\<rparr>]"
    "x509_ParseCertificate demo_library (content demo_der) = Inr \<lparr>cert_Raw = content demo_der\<rparr>"
    by (simp_all add: demo_library_def demo_parse_der_def demo_der_def)
  have all: "ReadAll demo_der = Inr (content demo_der)"
    by (simp add: ReadAll_def demo_der_def)
  have files: "ReadPEMFromFiles demo_library [demo_der_file] '''' demo_password collect quiet
      = (\<lparr>consumer = [EncodeX509ToPEM \<lparr>cert_Raw = content demo_der\<rparr>
                          (origin_headers ''chain.der'')], stderr = []\<rparr>, Returned None)"
    by (simp add: demo_der_file_def der readCertsFromStream_def parsed all emit_def collect_def
        quiet_def)
  have streams: "ReadX509 demo_library [demo_der] '''' demo_password collect quiet
      = (\<lparr>consumer = [\<lparr>cert_Raw = content demo_der\<rparr>], stderr = []\<rparr>, Returned None)"
    by (simp add: der readCertsFromStream_def parsed all emit_def collect_def quiet_def
        pemToX509_def EncodeX509ToPEM_def)
  note at_empty = short_input_aborts [OF short ext, where pre = "[demo_der_file]" and post = "[demo_der_file]" and password = demo_password
      and callback = collect and w = quiet and receive = collect and v = quiet]
  from at_empty files have 1: "ReadPEMFromFiles demo_library
        [demo_der_file, demo_empty_file, demo_der_file] '''' demo_password collect quiet
      = (\<lparr>consumer = [EncodeX509ToPEM \<lparr>cert_Raw = content demo_der\<rparr>
                          (origin_headers ''chain.der'')], stderr = []\<rparr>,
         Returned (Some (''unable to guess file type (for file notes)'' @ LF)))"
    by (simp add: demo_empty_file_def)
  from at_empty streams have 2: "ReadX509 demo_library [demo_der, demo_empty, demo_der] ''''
        demo_password collect quiet
      = (\<lparr>consumer = [\<lparr>cert_Raw = content demo_der\<rparr>], stderr = []\<rparr>,
         Returned (Some ''unable to guess format for input stream''))"
    by (simp add: demo_empty_file_def demo_der_file_def)
  from short ext 1 2 show ?thesis
    by (intro conjI)
qed

text \<open>
  C9 as stated has the reader return the error of the format detection. On an empty
  input the detection fails with \<^verbatim>\<open>unable to read file: EOF\<close>, and the reader returns
  another error, which does not hold that message.
\<close>

theorem short_input_error_counterexample:
  "formatForFile demo_library demo_empty '''' '''' = Inl (''unable to read file: EOF'' @ LF) \<and>
   ReadPEM demo_library [demo_empty] '''' demo_password collect quiet
     = (quiet, Returned (Some ''unable to guess format for input stream'')) \<and>
   ''unable to guess format for input stream'' \<noteq> ''unable to read file: EOF'' @ LF"
  by (simp add: formatForFile_def fileExtToFormat_def ToLower_def isASCII_def Ext_def Peek_def
      demo_empty_def)

text \<open>
  The extension decides before the bytes are looked at, also for an empty file: one
  whose name ends in \<^verbatim>\<open>.j\<close>, the Kelvin sign and \<^verbatim>\<open>s\<close> is taken for a keystore, the
  error of the keystore parser is dropped, and the reader goes on with the next file.
\<close>

lemma kelvin_named_empty_file:
  "ReadPEMFromFiles demo_library [\<lparr>Name = demo_kelvin_name, input = demo_empty\<rparr>, demo_der_file]
       '''' wrong_password collect quiet
     = (\<lparr>consumer = [EncodeX509ToPEM \<lparr>cert_Raw = content demo_der\<rparr> (origin_headers ''chain.der'')],
         stderr = []\<rparr>,
        Returned None)"
proof -
  have keystore: "formatForFile demo_library demo_empty demo_kelvin_name '''' = Inr ''JCEKS''"
    using kelvin_extension by simp
  have refused: "readCertsFromStream demo_library demo_empty demo_kelvin_name ''JCEKS''
        wrong_password collect quiet
      = (quiet, Returned (Some (''error parsing keystore: jceks: invalid digest'' @ LF)))"
    by (simp add: readCertsFromStream_def demo_library_def wrong_password_def)
  have der: "formatForFile demo_library demo_der ''chain.der'' '''' = Inr ''DER''"
    by (simp add: formatForFile_def fileExtToFormat_def ToLower_def isASCII_def Ext_def
        lower_char_def char_of_eq_iff)
  have parsed: "x509_ParseCertificates demo_library (content demo_der)
        = Inr [\<lparr>cert_Raw = content demo_der\<rparr>]"
    by (simp add: demo_library_def demo_parse_der_def demo_der_def)
  have all: "ReadAll demo_der = Inr (content demo_der)"
    by (simp add: ReadAll_def demo_der_def)
  have "readCertsFromStream demo_library demo_der ''chain.der'' ''DER'' wrong_password collect quiet
      = (\<lparr>consumer = [EncodeX509ToPEM \<lparr>cert_Raw = content demo_der\<rparr>
                          (origin_headers ''chain.der'')], stderr = []\<rparr>, Returned None)"
    by (simp add: readCertsFromStream_def parsed all emit_def collect_def quiet_def)
  with keystore refused der show ?thesis
    by (simp add: demo_der_file_def)
qed

subsection \<open>A PKCS#12 archive that does not open\<close>

lemma readCertsFromStream_PKCS12_empty:
  assumes "ReadAll reader = Inr data"
    and "pkcs12_ToPEM lib data (password '''') = ([], err)"
  shows "readCertsFromStream lib reader filename ''PKCS12'' password callback w
     = (Fprint_Stderr keystore_warning w, unknown_file_type ''PKCS12'')"
  using assms by (simp add: readCertsFromStream_def keystore_warning_def)

text \<open>
  C3. Let an input be read to its end, and let \<^verbatim>\<open>pkcs12.ToPEM\<close> fail on its bytes
  or return no block, where a failing \<^verbatim>\<open>pkcs12.ToPEM\<close> returns no block. Then
  \<open>readCertsFromStream\<close>, called for PKCS12 under any file name, prints the warning to
  standard error and leaves the consumer as it was. If the input is that of a file which
  resolves to PKCS12 under its name, each of the two readers of files, run on a list
  that holds the file at any place, goes on with the files after it, in the world the
  files before it left and with that warning printed, whenever it has read the files
  before it. If the input resolves to PKCS12 without a name, the same holds of the two
  readers of streams.
\<close>

theorem pkcs12_failure_is_a_warning:
  assumes "ReadAll r = Inr data"
    and "pkcs12_ToPEM lib data (password '''') = (blocks, err)"
    and "err \<noteq> None \<or> blocks = []"
    and "err \<noteq> None \<longrightarrow> blocks = []"
  shows "readCertsFromStream lib r filename ''PKCS12'' password callback w
       = (Fprint_Stderr keystore_warning w, unknown_file_type ''PKCS12'') \<and>
     consumer (Fprint_Stderr keystore_warning w) = consumer w \<and>
     stderr (Fprint_Stderr keystore_warning w) = stderr w @ [keystore_warning] \<and>
     (input f = r \<and> formatForFile lib r (Name f) format = Inr ''PKCS12'' \<longrightarrow>
        ReadPEMFromFiles lib (pre @ f # post) format password callback w =
          (case ReadPEMFromFiles lib pre format password callback w of
             (w', Returned None) \<Rightarrow>
               ReadPEMFromFiles lib post format password callback
                 (Fprint_Stderr keystore_warning w')
           | stop \<Rightarrow> stop) \<and>
        ReadX509FromFiles lib (pre @ f # post) format password receive v =
          (case ReadX509FromFiles lib pre format password receive v of
             (v', Returned None) \<Rightarrow>
               ReadX509FromFiles lib post format password receive
                 (Fprint_Stderr keystore_warning v')
           | stop \<Rightarrow> stop)) \<and>
     (formatForFile lib r '''' format = Inr ''PKCS12'' \<longrightarrow>
        ReadPEM lib (earlier @ r # later) format password callback w =
          (case ReadPEM lib earlier format password callback w of
             (w', Returned None) \<Rightarrow>
               ReadPEM lib later format password callback (Fprint_Stderr keystore_warning w')
           | stop \<Rightarrow> stop) \<and>
        ReadX509 lib (earlier @ r # later) format password receive v =
          (case ReadX509 lib earlier format password receive v of
             (v', Returned None) \<Rightarrow>
               ReadX509 lib later format password receive (Fprint_Stderr keystore_warning v')
           | stop \<Rightarrow> stop))"
proof -
  from assms(2-4) have none: "pkcs12_ToPEM lib data (password '''') = ([], err)"
    by auto
  note quiet_run = readCertsFromStream_PKCS12_empty [where password = password, OF assms(1) none]
  have files: "ReadPEMFromFiles lib (pre @ f # post) format password callback w =
          (case ReadPEMFromFiles lib pre format password callback w of
             (w', Returned None) \<Rightarrow>
               ReadPEMFromFiles lib post format password callback
                 (Fprint_Stderr keystore_warning w')
           | stop \<Rightarrow> stop) \<and>
        ReadX509FromFiles lib (pre @ f # post) format password receive v =
          (case ReadX509FromFiles lib pre format password receive v of
             (v', Returned None) \<Rightarrow>
               ReadX509FromFiles lib post format password receive
                 (Fprint_Stderr keystore_warning v')
           | stop \<Rightarrow> stop)"
    if "input f = r" and named: "formatForFile lib r (Name f) format = Inr ''PKCS12''"
  proof -
    from that have here: "formatForFile lib (input f) (Name f) format = Inr ''PKCS12''"
      by simp
    note run = quiet_run [folded \<open>input f = r\<close>]
    have "ReadPEMFromFiles lib (pre @ f # post) format password callback w =
          (case ReadPEMFromFiles lib pre format password callback w of
             (w', Returned None) \<Rightarrow>
               ReadPEMFromFiles lib post format password callback
                 (Fprint_Stderr keystore_warning w')
           | stop \<Rightarrow> stop)"
      by (simp add: ReadPEMFromFiles_append here run unknown_file_type_def
          split: prod.splits outcome.splits option.splits)
    moreover have "ReadX509FromFiles lib (pre @ f # post) format password receive v =
          (case ReadX509FromFiles lib pre format password receive v of
             (v', Returned None) \<Rightarrow>
               ReadX509FromFiles lib post format password receive
                 (Fprint_Stderr keystore_warning v')
           | stop \<Rightarrow> stop)"
      by (simp add: ReadX509FromFiles_append here run unknown_file_type_def
          split: prod.splits outcome.splits option.splits)
    ultimately show ?thesis
      by simp
  qed
  have streams: "ReadPEM lib (earlier @ r # later) format password callback w =
          (case ReadPEM lib earlier format password callback w of
             (w', Returned None) \<Rightarrow>
               ReadPEM lib later format password callback (Fprint_Stderr keystore_warning w')
           | stop \<Rightarrow> stop) \<and>
        ReadX509 lib (earlier @ r # later) format password receive v =
          (case ReadX509 lib earlier format password receive v of
             (v', Returned None) \<Rightarrow>
               ReadX509 lib later format password receive (Fprint_Stderr keystore_warning v')
           | stop \<Rightarrow> stop)"
    if anonymous: "formatForFile lib r '''' format = Inr ''PKCS12''"
  proof -
    have "ReadPEM lib (earlier @ r # later) format password callback w =
          (case ReadPEM lib earlier format password callback w of
             (w', Returned None) \<Rightarrow>
               ReadPEM lib later format password callback (Fprint_Stderr keystore_warning w')
           | stop \<Rightarrow> stop)"
      by (simp add: ReadPEM_append anonymous quiet_run unknown_file_type_def
          split: prod.splits outcome.splits option.splits)
    moreover have "ReadX509 lib (earlier @ r # later) format password receive v =
          (case ReadX509 lib earlier format password receive v of
             (v', Returned None) \<Rightarrow>
               ReadX509 lib later format password receive (Fprint_Stderr keystore_warning v')
           | stop \<Rightarrow> stop)"
      by (simp add: ReadX509_append anonymous quiet_run unknown_file_type_def
          split: prod.splits outcome.splits option.splits)
    ultimately show ?thesis
      by simp
  qed
  from files streams show ?thesis
    by (simp add: quiet_run Fprint_Stderr_def)
qed

text \<open>
  Two instances, with a password that opens nothing. A file \<^verbatim>\<open>empty.p12\<close> without a
  byte, which resolves to PKCS12 by its name only, is followed by a certificate; and a
  stream that starts like a PKCS#12 archive is followed by the same certificate.
\<close>

theorem pkcs12_failure_is_a_warning_witness:
  "formatForFile demo_library demo_empty ''empty.p12'' '''' = Inr ''PKCS12'' \<and>
   formatForFile demo_library demo_p12 '''' '''' = Inr ''PKCS12'' \<and>
   pkcs12_ToPEM demo_library (content demo_p12) (wrong_password '''')
     = ([], Some ''pkcs12: decryption password incorrect'') \<and>
   ReadPEMFromFiles demo_library [\<lparr>Name = ''empty.p12'', input = demo_empty\<rparr>, demo_der_file]
       '''' wrong_password collect quiet
     = (\<lparr>consumer = [EncodeX509ToPEM \<lparr>cert_Raw = content demo_der\<rparr> (origin_headers ''chain.der'')],
         stderr = [keystore_warning]\<rparr>,
        Returned None) \<and>
   ReadX509 demo_library [demo_p12, demo_der] '''' wrong_password collect quiet
     = (\<lparr>consumer = [\<lparr>cert_Raw = content demo_der\<rparr>], stderr = [keystore_warning]\<rparr>,
        Returned None)"
proof -
  have named: "formatForFile demo_library demo_empty ''empty.p12'' '''' = Inr ''PKCS12''"
    by (simp add: formatForFile_def fileExtToFormat_def ToLower_def isASCII_def Ext_def
        lower_char_def char_of_eq_iff)
  have anonymous: "formatForFile demo_library demo_p12 '''' '''' = Inr ''PKCS12''"
    by (simp add: formatForFile_def fileExtToFormat_def ToLower_def isASCII_def Ext_def Peek_def
        Uint32_def demo_p12_def)
  have all: "ReadAll demo_empty = Inr []" "ReadAll demo_p12 = Inr (content demo_p12)"
    by (simp_all add: ReadAll_def demo_empty_def demo_p12_def)
  have fails: "pkcs12_ToPEM demo_library data (wrong_password '''')
      = ([], Some ''pkcs12: decryption password incorrect'')" for data
    by (simp add: demo_library_def wrong_password_def)
  have failed: "Some ''pkcs12: decryption password incorrect'' \<noteq> None \<or> [] = ([] :: pem_block list)"
    by simp
  have contract: "Some ''pkcs12: decryption password incorrect'' \<noteq> None \<longrightarrow>
      [] = ([] :: pem_block list)"
    by simp
  note at_file = pkcs12_failure_is_a_warning [where password = wrong_password
      and lib = demo_library and f = "\<lparr>Name = ''empty.p12'', input = demo_empty\<rparr>"
      and format = "''''" and pre = "[]" and post = "[demo_der_file]" and callback = collect
      and w = quiet, OF all(1) fails failed contract]
  note at_stream = pkcs12_failure_is_a_warning [where password = wrong_password
      and lib = demo_library and format = "''''" and earlier = "[]" and later = "[demo_der]"
      and receive = collect and v = quiet, OF all(2) fails failed contract]
  have der: "formatForFile demo_library demo_der ''chain.der'' '''' = Inr ''DER''"
    "formatForFile demo_library demo_der '''' '''' = Inr ''DER''"
    by (simp_all add: formatForFile_def fileExtToFormat_def ToLower_def isASCII_def Ext_def
        lower_char_def char_of_eq_iff Peek_def Uint32_def demo_der_def)
  have parsed: "x509_ParseCertificates demo_library (content demo_der)
        = Inr [\<lparr>cert_Raw = content demo_der\<rparr>]"
    "x509_ParseCertificate demo_library (content demo_der) = Inr \<lparr>cert_Raw = content demo_der\<rparr>"
    by (simp_all add: demo_library_def demo_parse_der_def demo_der_def)
  have der_all: "ReadAll demo_der = Inr (content demo_der)"
    by (simp add: ReadAll_def demo_der_def)
  from at_file named have 1: "ReadPEMFromFiles demo_library
        [\<lparr>Name = ''empty.p12'', input = demo_empty\<rparr>, demo_der_file] ''''
        wrong_password collect quiet
      = (\<lparr>consumer = [EncodeX509ToPEM \<lparr>cert_Raw = content demo_der\<rparr>
                          (origin_headers ''chain.der'')],
          stderr = [keystore_warning]\<rparr>,
         Returned None)"
    by (simp add: demo_der_file_def der readCertsFromStream_def parsed der_all all fails
        emit_def collect_def quiet_def Fprint_Stderr_def keystore_warning_def
        unknown_file_type_def)
  from at_stream anonymous
  have 2: "ReadX509 demo_library [demo_p12, demo_der] '''' wrong_password collect quiet
      = (\<lparr>consumer = [\<lparr>cert_Raw = content demo_der\<rparr>], stderr = [keystore_warning]\<rparr>,
         Returned None)"
    by (simp add: der readCertsFromStream_def parsed der_all all fails
        emit_def collect_def quiet_def Fprint_Stderr_def pemToX509_def EncodeX509ToPEM_def
        keystore_warning_def unknown_file_type_def)
  from named anonymous fails [of "content demo_p12"] 1 2 show ?thesis
    by (intro conjI)
qed

subsection \<open>PEM input\<close>

text \<open>
  One round of the loop, case by case: a token, the end of the input, a buffer that
  cannot grow, and a read.
\<close>

lemma scan_blocks_token:
  assumes "pem_Decode lib (s_held s) = Some (found, rest)"
    and "length rest < length (s_held s)"
    and "pem_Decode lib (take (length (s_held s) - length rest) (s_held s)) = Some (block, rest')"
  shows "scan_blocks lib headers callback s w
     = scan_blocks lib headers callback
         (s\<lparr>s_start := s_start s + (length (s_held s) - length rest),
            s_held := drop (length (s_held s) - length rest) (s_held s),
            s_empties := 0\<rparr>)
         (emit callback (block\<lparr>Headers := mergeHeaders (Headers block) headers\<rparr>) w)"
proof -
  from assms(2) have "s_held s \<noteq> []" and "0 < length (s_held s) - length rest"
    by auto
  with assms show ?thesis
    by (subst scan_blocks.simps) (simp add: pemSplit_def Let_def)
qed

lemma scan_blocks_end:
  assumes "s_err s \<noteq> None" and "pem_Decode lib (s_held s) = None"
  shows "scan_blocks lib headers callback s w = (w, None)"
  using assms by (subst scan_blocks.simps) (simp add: pemSplit_def)

lemma scan_blocks_too_long:
  assumes "s_err s = None" and "pem_Decode lib (s_held s) = None"
    and "resize (shift s) = None"
  shows "scan_blocks lib headers callback s w = (w, None)"
  using assms by (subst scan_blocks.simps) (simp add: pemSplit_def)

lemma scan_blocks_more:
  assumes "s_err s = None" and "pem_Decode lib (s_held s) = None"
    and "resize (shift s) = Some s'"
  shows "scan_blocks lib headers callback s w = scan_blocks lib headers callback (fill s') w"
  using assms by (subst scan_blocks.simps) (simp add: pemSplit_def)

text \<open>
  Making room: a buffer is refused only when it holds \<open>MaxScanTokenSize\<close> bytes, and
  otherwise there is room for at least one byte after the bytes held, which stay as
  they are.
\<close>

lemma resize_refuses:
  assumes "s_start s + length (s_held s) \<le> s_buf s" and "resize (shift s) = None"
  shows "MaxScanTokenSize \<le> length (s_held s)"
  using assms by (auto simp: resize_def shift_def split: if_splits)

lemma resize_room:
  assumes "s_start s + length (s_held s) \<le> s_buf s" and "s_buf s \<le> MaxScanTokenSize"
    and "resize (shift s) = Some s'"
  shows "s_held s' = s_held s \<and> s_r s' = s_r s \<and> s_err s' = s_err s \<and>
     s_start s' + length (s_held s') < s_buf s' \<and> s_buf s' \<le> MaxScanTokenSize"
  using assms
  by (auto simp: resize_def shift_def startBufSize_def MaxScanTokenSize_def split: if_splits)

text \<open>A read into a buffer with room: the end of the input, or at least one byte.\<close>

lemma fill_end:
  assumes "content (s_r s) = []"
  shows "fill s = s\<lparr>s_err := Some (case failure (s_r s) of None \<Rightarrow> ''EOF'' | Some e \<Rightarrow> e)\<rparr>"
  using assms by (simp add: fill_def Read_def)

lemma fill_bytes:
  assumes "content (s_r s) \<noteq> []" and "s_start s + length (s_held s) < s_buf s"
  shows "\<exists>n r'. 0 < n \<and> n \<le> length (content (s_r s)) \<and>
     s_start s + length (s_held s) + n \<le> s_buf s \<and>
     content r' = drop n (content (s_r s)) \<and>
     fill s = s\<lparr>s_r := r', s_held := s_held s @ take n (content (s_r s)), s_err := None\<rparr>"
proof -
  define room where "room = s_buf s - (s_start s + length (s_held s))"
  define ready where "ready = (case reads (s_r s) of [] \<Rightarrow> room
      | m # ms \<Rightarrow> if m = 0 then room else min room m)"
  define n where "n = min ready (length (content (s_r s)))"
  define r' where "r' = (s_r s)\<lparr>content := drop n (content (s_r s)), reads := tl (reads (s_r s))\<rparr>"
  from assms(2) have "0 < room"
    by (simp add: room_def)
  then have "0 < ready" and "ready \<le> room"
    by (auto simp: ready_def split: list.splits)
  with assms(1) have n: "0 < n" "n \<le> length (content (s_r s))" "n \<le> room"
    by (auto simp: n_def)
  from assms(1) have "Read room (s_r s) = ((take n (content (s_r s)), None), r')"
    by (simp add: Read_def Let_def n_def ready_def r'_def)
  moreover from n assms(1) have "take n (content (s_r s)) \<noteq> []"
    by auto
  ultimately have "fill s
      = s\<lparr>s_r := r', s_held := s_held s @ take n (content (s_r s)), s_err := None\<rparr>"
    by (simp add: fill_def room_def)
  moreover have "content r' = drop n (content (s_r s))"
    by (simp add: r'_def)
  moreover from n have "s_start s + length (s_held s) + n \<le> s_buf s"
    by (simp add: room_def)
  ultimately show ?thesis
    using n by blast
qed

text \<open>
  What \<open>pem_sequence\<close> says of the bytes a scanner holds, when they are the first
  bytes of the data.
\<close>

lemma pem_sequence_nothing:
  assumes "pem_sequence lib blocks (held @ later)" and "length held \<le> MaxScanTokenSize"
    and "pem_Decode lib held = None"
  shows "(blocks \<noteq> [] \<longrightarrow> later \<noteq> [] \<and> length held < MaxScanTokenSize)"
proof (cases blocks)
  case Nil
  then show ?thesis
    by simp
next
  case (Cons b bs)
  from assms(2) have bound: "length held \<in> {..min (length (held @ later)) MaxScanTokenSize}"
    by simp
  from assms(1) Cons have seq: "pem_sequence lib (b # bs) (held @ later)"
    by simp
  have "case pem_Decode lib (take (length held) (held @ later)) of
      None \<Rightarrow> length held < length (held @ later) \<and> length held < MaxScanTokenSize
    | Some (found, rest) \<Rightarrow>
        length rest < length held \<and>
        (case pem_Decode lib (take (length held - length rest) (held @ later)) of
           None \<Rightarrow> False
         | Some (block, rest') \<Rightarrow>
             block = b \<and> pem_sequence lib bs (drop (length held - length rest) (held @ later)))"
    by (rule bspec [OF seq [unfolded pem_sequence.simps] bound])
  with assms(3) show ?thesis
    by simp
qed

lemma pem_sequence_block:
  assumes "pem_sequence lib blocks (held @ later)" and "length held \<le> MaxScanTokenSize"
    and "pem_Decode lib held = Some (found, rest)"
  shows "\<exists>block rest' bs. blocks = block # bs \<and> length rest < length held \<and>
     pem_Decode lib (take (length held - length rest) held) = Some (block, rest') \<and>
     pem_sequence lib bs (drop (length held - length rest) held @ later)"
proof (cases blocks)
  case Nil
  from assms(2) have bound: "length held \<in> {..min (length (held @ later)) MaxScanTokenSize}"
    by simp
  from assms(1) Nil have seq: "pem_sequence lib [] (held @ later)"
    by simp
  have "pem_Decode lib (take (length held) (held @ later)) = None"
    by (rule bspec [OF seq [unfolded pem_sequence.simps] bound])
  with assms(3) show ?thesis
    by simp
next
  case (Cons b bs)
  from assms(2) have bound: "length held \<in> {..min (length (held @ later)) MaxScanTokenSize}"
    by simp
  from assms(1) Cons have seq: "pem_sequence lib (b # bs) (held @ later)"
    by simp
  have "case pem_Decode lib (take (length held) (held @ later)) of
      None \<Rightarrow> length held < length (held @ later) \<and> length held < MaxScanTokenSize
    | Some (found, rest) \<Rightarrow>
        length rest < length held \<and>
        (case pem_Decode lib (take (length held - length rest) (held @ later)) of
           None \<Rightarrow> False
         | Some (block, rest') \<Rightarrow>
             block = b \<and> pem_sequence lib bs (drop (length held - length rest) (held @ later)))"
    by (rule bspec [OF seq [unfolded pem_sequence.simps] bound])
  with assms(3) Cons show ?thesis
    by (auto split: option.splits)
qed

text \<open>
  The loop on such an input, from any state the scanner can be in: whatever the reads
  deliver, the callback receives the blocks in their order, each with the headers
  merged in, and the loop ends.
\<close>

lemma scan_blocks_sequence:
  assumes "pem_sequence lib blocks (s_held s @ content (s_r s))"
    and "s_start s + length (s_held s) \<le> s_buf s"
    and "s_buf s \<le> MaxScanTokenSize"
    and "s_err s \<noteq> None \<longrightarrow> content (s_r s) = []"
  shows "scan_blocks lib headers callback s w
     = (fold (emit callback)
          (map (\<lambda>block. block\<lparr>Headers := mergeHeaders (Headers block) headers\<rparr>) blocks) w,
        None)"
  using assms
proof (induction "2 * (2 * length (content (s_r s)) + length (s_held s))
    + (if s_err s = None then 1 else 0 :: nat)" arbitrary: s w blocks rule: less_induct)
  case less
  from less.prems(2,3) have fits: "length (s_held s) \<le> MaxScanTokenSize"
    by simp
  show ?case
  proof (cases "pem_Decode lib (s_held s)")
    case (Some pair)
    obtain found rest where pair: "pair = (found, rest)"
      by (cases pair)
    from pem_sequence_block [OF less.prems(1) fits Some [unfolded pair]]
    obtain block rest' bs where blocks: "blocks = block # bs"
      and shorter: "length rest < length (s_held s)"
      and again: "pem_Decode lib (take (length (s_held s) - length rest) (s_held s))
          = Some (block, rest')"
      and others: "pem_sequence lib bs
          (drop (length (s_held s) - length rest) (s_held s) @ content (s_r s))"
      by blast
    let ?s = "s\<lparr>s_start := s_start s + (length (s_held s) - length rest),
        s_held := drop (length (s_held s) - length rest) (s_held s), s_empties := 0\<rparr>"
    have "scan_blocks lib headers callback ?s
          (emit callback (block\<lparr>Headers := mergeHeaders (Headers block) headers\<rparr>) w)
        = (fold (emit callback)
             (map (\<lambda>block. block\<lparr>Headers := mergeHeaders (Headers block) headers\<rparr>) bs)
             (emit callback (block\<lparr>Headers := mergeHeaders (Headers block) headers\<rparr>) w),
           None)"
    proof (rule less.hyps)
      from shorter
      show "2 * (2 * length (content (s_r ?s)) + length (s_held ?s))
          + (if s_err ?s = None then 1 else 0)
        < 2 * (2 * length (content (s_r s)) + length (s_held s))
          + (if s_err s = None then 1 else 0)"
        by simp
      from others show "pem_sequence lib bs (s_held ?s @ content (s_r ?s))"
        by simp
      from less.prems(2) shorter show "s_start ?s + length (s_held ?s) \<le> s_buf ?s"
        by simp
      from less.prems(3) show "s_buf ?s \<le> MaxScanTokenSize"
        by simp
      from less.prems(4) show "s_err ?s \<noteq> None \<longrightarrow> content (s_r ?s) = []"
        by simp
    qed
    then show ?thesis
      unfolding blocks
      by (simp add: scan_blocks_token [OF Some [unfolded pair] shorter again])
  next
    case None
    note no_block = pem_sequence_nothing [OF less.prems(1) fits None]
    show ?thesis
    proof (cases "s_err s")
      case (Some e)
      with less.prems(4) no_block have "blocks = []"
        by auto
      moreover from Some have "s_err s \<noteq> None"
        by simp
      ultimately show ?thesis
        by (simp add: scan_blocks_end [OF _ None])
    next
      case open_end: None
      show ?thesis
      proof (cases "resize (shift s)")
        case full: None
        from resize_refuses [OF less.prems(2) full] no_block have "blocks = []"
          by auto
        then show ?thesis
          by (simp add: scan_blocks_too_long [OF open_end None full])
      next
        case (Some s')
        from resize_room [OF less.prems(2,3) Some]
        have same: "s_held s' = s_held s" "s_r s' = s_r s" "s_err s' = s_err s"
          and space: "s_start s' + length (s_held s) < s_buf s'"
          and size: "s_buf s' \<le> MaxScanTokenSize"
          by auto
        have "scan_blocks lib headers callback (fill s') w
            = (fold (emit callback)
                 (map (\<lambda>block. block\<lparr>Headers := mergeHeaders (Headers block) headers\<rparr>)
                    blocks) w,
               None)"
        proof (cases "content (s_r s) = []")
          case True
          with same have filled: "fill s'
              = s'\<lparr>s_err := Some (case failure (s_r s') of None \<Rightarrow> ''EOF'' | Some e \<Rightarrow> e)\<rparr>"
            by (simp add: fill_end)
          show ?thesis
            unfolding filled
          proof (rule less.hyps)
            let ?s = "s'\<lparr>s_err := Some (case failure (s_r s') of None \<Rightarrow> ''EOF'' | Some e \<Rightarrow> e)\<rparr>"
            from same open_end
            show "2 * (2 * length (content (s_r ?s)) + length (s_held ?s))
                + (if s_err ?s = None then 1 else 0)
              < 2 * (2 * length (content (s_r s)) + length (s_held s))
                + (if s_err s = None then 1 else 0)"
              by simp
            from same less.prems(1) show "pem_sequence lib blocks (s_held ?s @ content (s_r ?s))"
              by simp
            from same space show "s_start ?s + length (s_held ?s) \<le> s_buf ?s"
              by simp
            from size show "s_buf ?s \<le> MaxScanTokenSize"
              by simp
            from same True show "s_err ?s \<noteq> None \<longrightarrow> content (s_r ?s) = []"
              by simp
          qed
        next
          case False
          with same space have "content (s_r s') \<noteq> []"
            and "s_start s' + length (s_held s') < s_buf s'"
            by simp_all
          from fill_bytes [OF this] obtain n r'
            where n: "0 < n" "n \<le> length (content (s_r s'))"
              "s_start s' + length (s_held s') + n \<le> s_buf s'"
              and r': "content r' = drop n (content (s_r s'))"
              and filled: "fill s' = s'\<lparr>s_r := r',
                  s_held := s_held s' @ take n (content (s_r s')), s_err := None\<rparr>"
            by blast
          show ?thesis
            unfolding filled
          proof (rule less.hyps)
            let ?s = "s'\<lparr>s_r := r', s_held := s_held s' @ take n (content (s_r s')),
                s_err := None\<rparr>"
            from same open_end n r'
            show "2 * (2 * length (content (s_r ?s)) + length (s_held ?s))
                + (if s_err ?s = None then 1 else 0)
              < 2 * (2 * length (content (s_r s)) + length (s_held s))
                + (if s_err s = None then 1 else 0)"
              by simp
            from same less.prems(1) r'
            show "pem_sequence lib blocks (s_held ?s @ content (s_r ?s))"
              by simp
            from n show "s_start ?s + length (s_held ?s) \<le> s_buf ?s"
              by simp
            from size show "s_buf ?s \<le> MaxScanTokenSize"
              by simp
            show "s_err ?s \<noteq> None \<longrightarrow> content (s_r ?s) = []"
              by simp
          qed
        qed
        then show ?thesis
          by (simp add: scan_blocks_more [OF open_end None Some])
      qed
    qed
  qed
qed

lemma readCertsFromStream_PEM:
  assumes "pem_sequence lib blocks (content reader)"
  shows "readCertsFromStream lib reader filename ''PEM'' password callback w
     = (fold (emit callback)
          (map (\<lambda>block. block\<lparr>Headers := mergeHeaders (Headers block) (origin_headers filename)\<rparr>)
             blocks) w,
        unknown_file_type ''PEM'')"
proof -
  have "scan_blocks lib (origin_headers filename) callback (NewScanner reader) w
      = (fold (emit callback)
           (map (\<lambda>block. block\<lparr>Headers := mergeHeaders (Headers block) (origin_headers filename)\<rparr>)
              blocks) w,
         None)"
    using assms by (intro scan_blocks_sequence) (simp_all add: NewScanner_def)
  then show ?thesis
    by (simp add: readCertsFromStream_def Let_def)
qed

lemma lookup_origin_named:
  "filename \<noteq> '''' \<Longrightarrow> filename \<noteq> Stdin_Name \<Longrightarrow>
   DAList.lookup (mergeHeaders headers (origin_headers filename)) fileHeader = Some filename"
  by (simp add: lookup_mergeHeaders origin_headers_def lookup_update map_add_def)

lemma lookup_origin_anonymous:
  "filename = '''' \<or> filename = Stdin_Name \<Longrightarrow>
   DAList.lookup (mergeHeaders headers (origin_headers filename)) = DAList.lookup headers"
  by (auto simp: lookup_mergeHeaders origin_headers_def fun_eq_iff map_add_def)

text \<open>
  C7, as amended. Let the input hold three PEM blocks one after the other, \<open>b1\<close>,
  \<open>b2\<close> and \<open>b3\<close>, each of which the decoder finds before the buffer of the scanner
  is full. In whatever portions the bytes arrive, the consumer receives exactly these
  three blocks, in this order: the type and the bytes of each are those of the block
  decoded, and its headers are its own headers merged with the origin headers. For a
  file with a name other than that of standard input, \<^verbatim>\<open>originFile\<close> is the name of
  the file in each of them. For an input with no name, or standard input, no header is
  added: each block keeps the headers it was decoded with, so that \<^verbatim>\<open>originFile\<close> is
  absent when the block did not have it, and present when it did.
\<close>

theorem pem_blocks_in_file_order:
  assumes "pem_sequence lib [b1, b2, b3] (content reader)"
  shows "readCertsFromStream lib reader filename ''PEM'' password callback w
       = (emit callback (b3\<lparr>Headers := mergeHeaders (Headers b3) (origin_headers filename)\<rparr>)
            (emit callback (b2\<lparr>Headers := mergeHeaders (Headers b2) (origin_headers filename)\<rparr>)
               (emit callback (b1\<lparr>Headers := mergeHeaders (Headers b1) (origin_headers filename)\<rparr>)
                  w)),
          unknown_file_type ''PEM'') \<and>
     (filename \<noteq> '''' \<and> filename \<noteq> Stdin_Name \<longrightarrow>
        (\<forall>b. DAList.lookup (mergeHeaders (Headers b) (origin_headers filename)) fileHeader
               = Some filename)) \<and>
     (filename = '''' \<or> filename = Stdin_Name \<longrightarrow>
        (\<forall>b. DAList.lookup (mergeHeaders (Headers b) (origin_headers filename))
               = DAList.lookup (Headers b)))"
proof -
  have "readCertsFromStream lib reader filename ''PEM'' password callback w
       = (emit callback (b3\<lparr>Headers := mergeHeaders (Headers b3) (origin_headers filename)\<rparr>)
            (emit callback (b2\<lparr>Headers := mergeHeaders (Headers b2) (origin_headers filename)\<rparr>)
               (emit callback (b1\<lparr>Headers := mergeHeaders (Headers b1) (origin_headers filename)\<rparr>)
                  w)),
          unknown_file_type ''PEM'')"
    by (simp add: readCertsFromStream_PEM [OF assms])
  then show ?thesis
    using lookup_origin_named lookup_origin_anonymous by blast
qed

text \<open>The example decoder on the example text, repeated any number of times.\<close>

lemma demo_token_length: "length demo_token = 82"
  by (simp add: demo_token_def demo_pem_text_def LF_def)

lemma demo_Decode_short: "length data < length demo_token \<Longrightarrow> demo_Decode data = None"
  by (auto simp: demo_Decode_def)

lemma demo_Decode_token: "demo_Decode (demo_token @ rest) = Some (demo_block, rest)"
  by (simp add: demo_Decode_def)

lemma demo_sequence:
  "pem_sequence demo_library (replicate k demo_block) (concat (replicate k demo_token))"
proof (induction k)
  case 0
  have "demo_Decode [] = None"
    by (rule demo_Decode_short) (simp add: demo_token_length)
  then show ?case
    by (simp add: demo_library_def)
next
  case (Suc k)
  let ?later = "concat (replicate k demo_token)"
  let ?data = "demo_token @ ?later"
  have "case pem_Decode demo_library (take n ?data) of
      None \<Rightarrow> n < length ?data \<and> n < MaxScanTokenSize
    | Some (found, rest) \<Rightarrow>
        length rest < n \<and>
        (case pem_Decode demo_library (take (n - length rest) ?data) of
           None \<Rightarrow> False
         | Some (block, rest') \<Rightarrow>
             block = demo_block \<and>
             pem_sequence demo_library (replicate k demo_block) (drop (n - length rest) ?data))"
    if "n \<in> {..min (length ?data) MaxScanTokenSize}" for n
  proof (cases "n < length demo_token")
    case True
    then have "demo_Decode (take n ?data) = None"
      by (intro demo_Decode_short) simp
    with True show ?thesis
      by (simp add: demo_library_def demo_token_length MaxScanTokenSize_def)
  next
    case False
    then have "take n ?data = demo_token @ take (n - length demo_token) ?later"
      by simp
    then have found: "demo_Decode (take n ?data)
        = Some (demo_block, take (n - length demo_token) ?later)"
      by (simp only: demo_Decode_token)
    from that False have rest: "length (take (n - length demo_token) ?later) = n - length demo_token"
      by auto
    from False have consumed: "n - (n - length demo_token) = length demo_token"
      by simp
    have again: "demo_Decode (take (length demo_token) ?data) = Some (demo_block, [])"
      using demo_Decode_token [of "[]"] by simp
    from False have "n - length demo_token < n"
      by (simp add: demo_token_length)
    with found rest consumed again Suc.IH show ?thesis
      by (simp add: demo_library_def)
  qed
  then show ?case
    by simp
qed

lemma demo_three_sequence:
  "pem_sequence demo_library [demo_block, demo_block, demo_block] (content demo_three)"
  using demo_sequence [of 3] by (simp add: demo_three_def numeral_3_eq_3)

lemma demo_block_merged:
  "demo_block\<lparr>Headers := mergeHeaders (Headers demo_block) DAList.empty\<rparr> = demo_block"
  by (simp add: demo_block_def mergeHeaders_def range_store_def update.rep_eq empty.rep_eq)

theorem pem_blocks_in_file_order_witness:
  "pem_sequence demo_library [demo_block, demo_block, demo_block] (content demo_three) \<and>
   reads demo_three = [16, 100] \<and>
   consumer (fst (readCertsFromStream demo_library demo_three ''bundle.pem'' ''PEM''
                    demo_password collect quiet))
     = [demo_block\<lparr>Headers := mergeHeaders (Headers demo_block) (origin_headers ''bundle.pem'')\<rparr>,
        demo_block\<lparr>Headers := mergeHeaders (Headers demo_block) (origin_headers ''bundle.pem'')\<rparr>,
        demo_block\<lparr>Headers := mergeHeaders (Headers demo_block) (origin_headers ''bundle.pem'')\<rparr>] \<and>
   DAList.lookup (mergeHeaders (Headers demo_block) (origin_headers ''bundle.pem'')) fileHeader
     = Some ''bundle.pem'' \<and>
   DAList.lookup (mergeHeaders (Headers demo_block) (origin_headers Stdin_Name))
     = DAList.lookup (Headers demo_block)"
proof -
  note named = pem_blocks_in_file_order [OF demo_three_sequence,
      where filename = "''bundle.pem''" and callback = collect and w = quiet
      and password = demo_password]
  note stdin = pem_blocks_in_file_order [OF demo_three_sequence,
      where filename = Stdin_Name and callback = collect and w = quiet
      and password = demo_password]
  have name: "''bundle.pem'' \<noteq> '''' \<and> ''bundle.pem'' \<noteq> Stdin_Name"
    by (simp add: Stdin_Name_def)
  have portions: "reads demo_three = [16, 100]"
    by (simp add: demo_three_def)
  from named [THEN conjunct1]
  have 1: "consumer (fst (readCertsFromStream demo_library demo_three ''bundle.pem''
        ''PEM'' demo_password collect quiet))
      = [demo_block\<lparr>Headers := mergeHeaders (Headers demo_block) (origin_headers ''bundle.pem'')\<rparr>,
         demo_block\<lparr>Headers := mergeHeaders (Headers demo_block) (origin_headers ''bundle.pem'')\<rparr>,
         demo_block\<lparr>Headers := mergeHeaders (Headers demo_block) (origin_headers ''bundle.pem'')\<rparr>]"
    by (simp add: emit_def collect_def quiet_def)
  from named name have 2: "DAList.lookup
        (mergeHeaders (Headers demo_block) (origin_headers ''bundle.pem'')) fileHeader
      = Some ''bundle.pem''"
    by blast
  from stdin have 3: "DAList.lookup (mergeHeaders (Headers demo_block) (origin_headers Stdin_Name))
      = DAList.lookup (Headers demo_block)"
    by blast
  from demo_three_sequence portions 1 2 3 show ?thesis
    by (intro conjI)
qed

text \<open>
  C7 as stated has no \<^verbatim>\<open>originFile\<close> header in any block of an input without a
  name. Three blocks that carry such a header in their own PEM text, read from an input
  without a name, reach the consumer with it.
\<close>

theorem anonymous_originFile_counterexample:
  "consumer (fst (readCertsFromStream demo_library demo_three '''' ''PEM''
                    demo_password collect quiet))
     = [demo_block, demo_block, demo_block] \<and>
   DAList.lookup (Headers demo_block) fileHeader = Some ''other.pem''"
proof -
  have "readCertsFromStream demo_library demo_three '''' ''PEM'' demo_password collect quiet
      = (\<lparr>consumer = [demo_block, demo_block, demo_block], stderr = []\<rparr>,
         unknown_file_type ''PEM'')"
    by (simp add: readCertsFromStream_PEM [OF demo_three_sequence] origin_headers_def
        demo_block_merged emit_def collect_def quiet_def)
  moreover have "DAList.lookup (Headers demo_block) fileHeader = Some ''other.pem''"
    by (simp add: demo_block_def fileHeader_def lookup_update)
  ultimately show ?thesis
    by simp
qed

text \<open>
  The limit of the scanner. A block that the decoder finds only in more bytes than
  \<open>MaxScanTokenSize\<close> never becomes a token: the scanner ends with
  \<^verbatim>\<open>ErrTooLong\<close>, which \<open>readCertsFromStream\<close> does not read, and the callback
  is not called, although the decoder finds a block in the input as a whole.
\<close>

lemma oversized_block_is_dropped:
  "pem_Decode demo_long_library (content demo_long) = Some (demo_block, []) \<and>
   readCertsFromStream demo_long_library demo_long ''big.pem'' ''PEM'' demo_password collect quiet
     = (quiet, unknown_file_type ''PEM'')"
proof -
  have "pem_sequence demo_long_library [] (content demo_long)"
    by (simp add: demo_long_library_def demo_long_Decode_def MaxScanTokenSize_def)
  from readCertsFromStream_PEM [OF this] show ?thesis
    by (simp add: demo_long_library_def demo_long_Decode_def demo_long_def)
qed

subsection \<open>What the readers do with the error of a decoder\<close>

text \<open>
  C1. Two inputs are read as DER. The bytes of the first are neither certificates nor
  PKCS#7 signed data, so that \<open>readCertsFromStream\<close> returns the error
  \<^verbatim>\<open>error parsing certificates from DER data\<close> on it; the second is a certificate.
  \<open>ReadPEM\<close> and \<open>ReadX509\<close> go on to the second input, hand its certificate to the
  callback, and return \<^verbatim>\<open>nil\<close>: the error of the first input does not reach the
  caller.
\<close>

theorem reader_discards_decoder_error:
  "readCertsFromStream demo_library demo_garbage '''' ''DER'' demo_password collect quiet
     = (quiet, Returned (Some (''error parsing certificates from DER data'' @ LF))) \<and>
   ReadPEM demo_library [demo_garbage, demo_der] ''DER'' demo_password collect quiet
     = (\<lparr>consumer = [EncodeX509ToPEM \<lparr>cert_Raw = content demo_der\<rparr> DAList.empty],
         stderr = []\<rparr>,
        Returned None) \<and>
   ReadX509 demo_library [demo_garbage, demo_der] ''DER'' demo_password collect quiet
     = (\<lparr>consumer = [\<lparr>cert_Raw = content demo_der\<rparr>], stderr = []\<rparr>, Returned None)"
proof -
  have hint: "formatForFile demo_library reader '''' ''DER'' = Inr ''DER''" for reader
    by (simp add: formatForFile_def)
  have all: "ReadAll demo_garbage = Inr (content demo_garbage)"
    "ReadAll demo_der = Inr (content demo_der)"
    by (simp_all add: ReadAll_def demo_garbage_def demo_der_def)
  have refused: "x509_ParseCertificates demo_library (content demo_garbage)
        = Inl ''asn1: structure error: tags do not match''"
    "pkcs7_ParseSignedData demo_library (content demo_garbage) = Inl ''pkcs7: not signed data''"
    by (simp_all add: demo_library_def demo_parse_der_def demo_garbage_def)
  have parsed: "x509_ParseCertificates demo_library (content demo_der)
        = Inr [\<lparr>cert_Raw = content demo_der\<rparr>]"
    "x509_ParseCertificate demo_library (content demo_der) = Inr \<lparr>cert_Raw = content demo_der\<rparr>"
    by (simp_all add: demo_library_def demo_parse_der_def demo_der_def)
  have first: "readCertsFromStream demo_library demo_garbage '''' ''DER'' demo_password callback w
      = (w, Returned (Some (''error parsing certificates from DER data'' @ LF)))"
    for callback :: "pem_block \<Rightarrow> 'a \<Rightarrow> 'a" and w
    by (simp add: readCertsFromStream_def all refused)
  have second: "readCertsFromStream demo_library demo_der '''' ''DER'' demo_password callback w
      = (emit callback (EncodeX509ToPEM \<lparr>cert_Raw = content demo_der\<rparr> DAList.empty) w,
         Returned None)"
    for callback :: "pem_block \<Rightarrow> 'a \<Rightarrow> 'a" and w
    by (simp add: readCertsFromStream_def all parsed origin_headers_def)
  have 1: "ReadPEM demo_library [demo_garbage, demo_der] ''DER'' demo_password collect quiet
      = (\<lparr>consumer = [EncodeX509ToPEM \<lparr>cert_Raw = content demo_der\<rparr> DAList.empty],
          stderr = []\<rparr>,
         Returned None)"
    by (simp add: hint first second emit_def collect_def quiet_def)
  have 2: "ReadX509 demo_library [demo_garbage, demo_der] ''DER'' demo_password collect quiet
      = (\<lparr>consumer = [\<lparr>cert_Raw = content demo_der\<rparr>], stderr = []\<rparr>, Returned None)"
    by (simp add: hint first second emit_def collect_def quiet_def pemToX509_def
        EncodeX509ToPEM_def parsed)
  from first [of collect quiet] 1 2 show ?thesis
    by simp
qed

text \<open>
  Read off the run above: the first input ends in an error, the run of the reader on
  both inputs ends in \<^verbatim>\<open>nil\<close>, and the consumer holds the certificate of the second
  input.
\<close>

theorem reader_discards_decoder_error_witness:
  "snd (readCertsFromStream demo_library demo_garbage '''' ''DER'' demo_password collect quiet)
     = Returned (Some (''error parsing certificates from DER data'' @ LF)) \<and>
   snd (ReadPEM demo_library [demo_garbage, demo_der] ''DER'' demo_password collect quiet)
     = Returned None \<and>
   consumer (fst (ReadX509 demo_library [demo_garbage, demo_der] ''DER'' demo_password
                    collect quiet))
     = [\<lparr>cert_Raw = content demo_der\<rparr>]"
  using reader_discards_decoder_error by simp

end
